theory Spec2Isabelle
  imports Complex_Main
begin

section \<open>Python strings\<close>

text \<open>
  Strings are lists of characters; the model covers the ASCII range. The helpers below
  are the Python string methods the services call: \<^verbatim>\<open>str.strip\<close>, \<^verbatim>\<open>str.lower\<close>,
  \<^verbatim>\<open>str.replace\<close> with a one-character pattern, and the three character classes
  \<^verbatim>\<open>\s\<close>, \<^verbatim>\<open>\d\<close> and \<^verbatim>\<open>\w\<close> of \<^verbatim>\<open>re\<close>.
\<close>

definition is_space :: "char \<Rightarrow> bool" where
  "is_space c = (c \<in> set [CHR '' '', CHR 0x09, CHR 0x0A, CHR 0x0B, CHR 0x0C, CHR 0x0D,
                            CHR 0x1C, CHR 0x1D, CHR 0x1E, CHR 0x1F])"

definition is_digit :: "char \<Rightarrow> bool" where
  "is_digit c = (c \<in> set ''0123456789'')"

definition is_upper :: "char \<Rightarrow> bool" where
  "is_upper c = (c \<in> set ''ABCDEFGHIJKLMNOPQRSTUVWXYZ'')"

definition is_lower :: "char \<Rightarrow> bool" where
  "is_lower c = (c \<in> set ''abcdefghijklmnopqrstuvwxyz'')"

definition is_word :: "char \<Rightarrow> bool" where
  "is_word c = (is_lower c \<or> is_upper c \<or> is_digit c \<or> c = CHR ''_'')"

fun lower_char :: "char \<Rightarrow> char" where
  "lower_char c =
     (case map_of (zip ''ABCDEFGHIJKLMNOPQRSTUVWXYZ'' ''abcdefghijklmnopqrstuvwxyz'') c of
        Some d \<Rightarrow> d
      | None \<Rightarrow> c)"

definition py_lower :: "string \<Rightarrow> string" where
  "py_lower s = map lower_char s"

definition strip_with :: "(char \<Rightarrow> bool) \<Rightarrow> string \<Rightarrow> string" where
  "strip_with p s = rev (dropWhile p (rev (dropWhile p s)))"

text \<open>\<^verbatim>\<open>s.strip()\<close>\<close>

definition py_strip :: "string \<Rightarrow> string" where
  "py_strip s = strip_with is_space s"

text \<open>\<^verbatim>\<open>s.replace(c, '')\<close> for a single character \<open>c\<close>\<close>

definition remove_char :: "char \<Rightarrow> string \<Rightarrow> string" where
  "remove_char c s = filter (\<lambda>x. x \<noteq> c) s"

text \<open>
  \<^verbatim>\<open>re.sub(p+, rep, s)\<close> for a character class \<open>p\<close>: every maximal run of characters
  of the class is replaced by one \<open>rep\<close>.
\<close>

function sub_runs :: "(char \<Rightarrow> bool) \<Rightarrow> char \<Rightarrow> string \<Rightarrow> string" where
  "sub_runs p rep [] = []"
| "sub_runs p rep (c # cs) =
     (if p c then rep # sub_runs p rep (dropWhile p cs) else c # sub_runs p rep cs)"
  by pat_completeness auto
termination
  by (relation "measure (\<lambda>(p, rep, s). length s)")
     (auto simp: length_dropWhile_le less_Suc_eq_le)

text \<open>\<^verbatim>\<open>re.sub(p, rep, s)\<close> for a character class \<open>p\<close>: each character of the class is replaced.\<close>

definition sub_each :: "(char \<Rightarrow> bool) \<Rightarrow> char \<Rightarrow> string \<Rightarrow> string" where
  "sub_each p rep s = map (\<lambda>c. if p c then rep else c) s"

text \<open>\<^verbatim>\<open>str(n)\<close> for a natural number and for an integer\<close>

fun digit_char :: "nat \<Rightarrow> char" where
  "digit_char n = ''0123456789'' ! (n mod 10)"

fun str_nat :: "nat \<Rightarrow> string" where
  "str_nat n = (if n < 10 then [digit_char n] else str_nat (n div 10) @ [digit_char n])"

declare str_nat.simps [simp del]

definition str_int :: "int \<Rightarrow> string" where
  "str_int i = (if i < 0 then CHR ''-'' # str_nat (nat (- i)) else str_nat (nat i))"

section \<open>Column name normalizer (services/parser.py)\<close>

text \<open>
  A raw header is a column label as pandas read it: a text label, or a missing one
  (\<^verbatim>\<open>None\<close>/\<^verbatim>\<open>NaN\<close>), for which \<^verbatim>\<open>pd.isna(name)\<close> holds.
\<close>

datatype header = Label string | Missing_label

text \<open>
  \<^verbatim>\<open>normalize_column_name\<close>: strip, lowercase, \<^verbatim>\<open>re.sub(r'\s+', '_', name)\<close>,
  \<^verbatim>\<open>re.sub(r'[^\w]', '_', name)\<close>, \<^verbatim>\<open>re.sub(r'_+', '_', name)\<close>, \<^verbatim>\<open>name.strip('_')\<close>,
  and the fallback for an empty result.
\<close>

fun normalize_column_name :: "header \<Rightarrow> string" where
  "normalize_column_name Missing_label = ''unnamed_column''"
| "normalize_column_name (Label raw) =
     (let name = py_lower (py_strip raw);
          name = sub_runs is_space (CHR ''_'') name;
          name = sub_each (\<lambda>c. \<not> is_word c) (CHR ''_'') name;
          name = sub_runs (\<lambda>c. c = CHR ''_'') (CHR ''_'') name;
          name = strip_with (\<lambda>c. c = CHR ''_'') name
      in if name = [] then ''unnamed_column'' else name)"

text \<open>
  \<^verbatim>\<open>ensure_unique_columns\<close>: the loop over \<open>columns\<close>, with the dictionary \<open>seen\<close>
  and the list \<open>result\<close> as its state.
\<close>

fun ensure_unique_loop ::
  "string list \<Rightarrow> (string \<rightharpoonup> nat) \<Rightarrow> string list \<Rightarrow> string list" where
  "ensure_unique_loop [] seen result = result"
| "ensure_unique_loop (col # columns) seen result =
     (case seen col of
        Some k \<Rightarrow>
          ensure_unique_loop columns (seen(col \<mapsto> k + 1))
            (result @ [col @ ''_'' @ str_nat (k + 1)])
      | None \<Rightarrow> ensure_unique_loop columns (seen(col \<mapsto> 0)) (result @ [col]))"

definition ensure_unique_columns :: "string list \<Rightarrow> string list" where
  "ensure_unique_columns columns = ensure_unique_loop columns Map.empty []"

text \<open>The header pass of \<^verbatim>\<open>parse_file\<close>: normalize every label, then make them unique.\<close>

definition normalized_columns :: "header list \<Rightarrow> string list" where
  "normalized_columns raw = ensure_unique_columns (map normalize_column_name raw)"

section \<open>Cells, columns and frames\<close>

text \<open>
  A cell holds a missing value (\<^verbatim>\<open>None\<close>, \<^verbatim>\<open>NaN\<close> or \<^verbatim>\<open>NaT\<close>: all three satisfy
  \<^verbatim>\<open>isna\<close>), a boolean, an integer, a floating-point number that is not \<^verbatim>\<open>NaN\<close>, a
  text, or a timestamp. A finite floating-point value is kept as the rational it denotes;
  of a timestamp only the calendar date is kept (the cleaner formats it with
  \<^verbatim>\<open>%Y-%m-%d\<close> and reads nothing else of it).
\<close>

datatype date = Date (year: nat) (month: nat) (day: nat)

datatype fl = Fin rat | PInf | NInf

datatype cell = Null | Bool bool | Integer int | Float fl | Text string | Timestamp date

datatype dtype = Object | Int64 | Float64 | Boolean | Datetime64

record column =
  dtype :: dtype
  vals :: "cell list"

text \<open>
  A frame: the row labels (\<^verbatim>\<open>df.index\<close>) and the named columns in order. Every column
  has one cell per row label and the column names are distinct (\<open>wf_frame\<close>).
\<close>

record frame =
  index :: "nat list"
  cols :: "(string \<times> column) list"

definition columns :: "frame \<Rightarrow> string list" where
  "columns df = map fst (cols df)"

definition len :: "frame \<Rightarrow> nat" where
  "len df = length (index df)"

definition wf_frame :: "frame \<Rightarrow> bool" where
  "wf_frame df =
     (distinct (columns df) \<and> list_all (\<lambda>(name, c). length (vals c) = len df) (cols df))"

datatype py_error = KeyError | ZeroDivisionError

text \<open>\<^verbatim>\<open>df[col]\<close>: raises \<^verbatim>\<open>KeyError\<close> for a name that is not a column.\<close>

definition getitem :: "frame \<Rightarrow> string \<Rightarrow> py_error + column" where
  "getitem df col = (case map_of (cols df) col of None \<Rightarrow> Inl KeyError | Some c \<Rightarrow> Inr c)"

text \<open>\<^verbatim>\<open>df[col] = series\<close>: replaces the column in place, or appends a new one.\<close>

definition setitem :: "frame \<Rightarrow> string \<Rightarrow> column \<Rightarrow> frame" where
  "setitem df col c =
     (if col \<in> set (columns df)
      then df\<lparr>cols := map (\<lambda>(name, old). if name = col then (name, c) else (name, old)) (cols df)\<rparr>
      else df\<lparr>cols := cols df @ [(col, c)]\<rparr>)"

definition notna :: "cell \<Rightarrow> bool" where
  "notna c = (c \<noteq> Null)"

text \<open>\<^verbatim>\<open>series.dropna()\<close> and \<^verbatim>\<open>series.notna().sum()\<close>\<close>

definition dropna :: "cell list \<Rightarrow> cell list" where
  "dropna xs = filter notna xs"

definition notna_sum :: "cell list \<Rightarrow> nat" where
  "notna_sum xs = length (filter notna xs)"

text \<open>The rows of a frame, each as the list of its cells in column order.\<close>

definition row_at :: "frame \<Rightarrow> nat \<Rightarrow> cell list" where
  "row_at df i = map (\<lambda>(name, c). vals c ! i) (cols df)"

definition rows :: "frame \<Rightarrow> cell list list" where
  "rows df = map (row_at df) [0..<len df]"

text \<open>Keeping the rows at the positions where the mask holds (boolean indexing).\<close>

definition select :: "bool list \<Rightarrow> 'a list \<Rightarrow> 'a list" where
  "select keep xs = map snd (filter fst (zip keep xs))"

definition select_rows :: "bool list \<Rightarrow> frame \<Rightarrow> frame" where
  "select_rows keep df =
     \<lparr>index = select keep (index df),
      cols = map (\<lambda>(name, c). (name, c\<lparr>vals := select keep (vals c)\<rparr>)) (cols df)\<rparr>"

text \<open>
  \<^verbatim>\<open>df.dropna(how='all')\<close> keeps the rows with a cell that is not missing;
  \<^verbatim>\<open>df.dropna(axis=1, how='all')\<close> keeps the columns with such a cell, and
  \<^verbatim>\<open>df.columns[df.isna().all()]\<close> are the others.
\<close>

definition dropna_rows :: "frame \<Rightarrow> frame" where
  "dropna_rows df = select_rows (map (\<lambda>r. list_ex notna r) (rows df)) df"

definition dropna_cols :: "frame \<Rightarrow> frame" where
  "dropna_cols df = df\<lparr>cols := filter (\<lambda>(name, c). list_ex notna (vals c)) (cols df)\<rparr>"

definition all_na_columns :: "frame \<Rightarrow> string list" where
  "all_na_columns df = map fst (filter (\<lambda>(name, c). \<not> list_ex notna (vals c)) (cols df))"

text \<open>The dtype predicates of \<^verbatim>\<open>pd.api.types\<close>.\<close>

definition is_numeric_dtype :: "column \<Rightarrow> bool" where
  "is_numeric_dtype c = (dtype c = Int64 \<or> dtype c = Float64 \<or> dtype c = Boolean)"

definition is_float_dtype :: "column \<Rightarrow> bool" where
  "is_float_dtype c = (dtype c = Float64)"

definition is_datetime64_any_dtype :: "column \<Rightarrow> bool" where
  "is_datetime64_any_dtype c = (dtype c = Datetime64)"

section \<open>The library functions the cleaner calls\<close>

text \<open>
  Three functions of pandas and Python are parameters of the model, since their
  results are fixed by the library and not by this repository:
  \<^item> \<open>to_datetime\<close> is \<^verbatim>\<open>pd.to_datetime(series, errors='coerce')\<close> on the cells of a column:
    \<open>None\<close> when the call raises, otherwise one parsed date or \<^verbatim>\<open>NaT\<close> per cell;
  \<^item> \<open>to_numeric\<close> is \<^verbatim>\<open>pd.to_numeric(series, errors='coerce')\<close>: the numeric column it builds;
  \<^item> \<open>float_str\<close> is \<^verbatim>\<open>str\<close> on a floating-point number.
\<close>

record pandas =
  to_datetime :: "cell list \<Rightarrow> date option list option"
  to_numeric :: "cell list \<Rightarrow> column"
  float_str :: "fl \<Rightarrow> string"

text \<open>\<^verbatim>\<open>strftime('%Y-%m-%d')\<close>\<close>

definition zero_pad :: "nat \<Rightarrow> string \<Rightarrow> string" where
  "zero_pad w s = replicate (w - length s) (CHR ''0'') @ s"

definition strftime :: "date \<Rightarrow> string" where
  "strftime d =
     zero_pad 4 (str_nat (year d)) @ ''-'' @ zero_pad 2 (str_nat (month d)) @ ''-''
       @ zero_pad 2 (str_nat (day d))"

text \<open>
  \<^verbatim>\<open>str(value)\<close>, as \<^verbatim>\<open>astype(str)\<close> applies it to every cell. A missing cell prints as
  \<^verbatim>\<open>nan\<close>; a timestamp prints its date and the time of day, taken as midnight.
\<close>

fun py_str :: "pandas \<Rightarrow> cell \<Rightarrow> string" where
  "py_str L Null = ''nan''"
| "py_str L (Bool b) = (if b then ''True'' else ''False'')"
| "py_str L (Integer i) = str_int i"
| "py_str L (Float f) = float_str L f"
| "py_str L (Text s) = s"
| "py_str L (Timestamp d) = strftime d @ '' 00:00:00''"

section \<open>Regular expressions of the date patterns\<close>

text \<open>
  The five patterns of \<^verbatim>\<open>is_date_column\<close> are sequences of three kinds of items: a literal
  character, a character class repeated between \<open>lo\<close> and \<open>hi\<close> times (\<^verbatim>\<open>\d{2}\<close>,
  \<^verbatim>\<open>\d{1,2}\<close>), and a character class repeated once or more (\<^verbatim>\<open>\w+\<close>). \<open>re_match\<close>
  decides whether the whole string matches the sequence, as \<^verbatim>\<open>re.match\<close> does for a
  pattern between \<^verbatim>\<open>^\<close> and \<^verbatim>\<open>$\<close> on a stripped string.
\<close>

datatype cls = Digit | Word

fun in_cls :: "cls \<Rightarrow> char \<Rightarrow> bool" where
  "in_cls Digit c = is_digit c"
| "in_cls Word c = is_word c"

datatype item = Lit char | Rep cls nat nat | Plus cls

fun re_match :: "item list \<Rightarrow> string \<Rightarrow> bool" where
  "re_match [] s = (s = [])"
| "re_match (Lit c # items) s = (case s of [] \<Rightarrow> False | x # xs \<Rightarrow> x = c \<and> re_match items xs)"
| "re_match (Rep k lo hi # items) s =
     list_ex (\<lambda>n. n \<le> length s \<and> list_all (in_cls k) (take n s) \<and> re_match items (drop n s))
       [lo..<Suc hi]"
| "re_match (Plus k # items) s =
     list_ex (\<lambda>n. list_all (in_cls k) (take n s) \<and> re_match items (drop n s))
       [1..<Suc (length s)]"

definition date_patterns :: "item list list" where
  "date_patterns =
     [[Rep Digit 4 4, Lit (CHR ''-''), Rep Digit 2 2, Lit (CHR ''-''), Rep Digit 2 2],
      [Rep Digit 2 2, Lit (CHR ''/''), Rep Digit 2 2, Lit (CHR ''/''), Rep Digit 4 4],
      [Rep Digit 2 2, Lit (CHR ''-''), Rep Digit 2 2, Lit (CHR ''-''), Rep Digit 4 4],
      [Rep Digit 1 2, Lit (CHR ''/''), Rep Digit 1 2, Lit (CHR ''/''), Rep Digit 2 4],
      [Plus Word, Lit (CHR '' ''), Rep Digit 1 2, Lit (CHR '',''), Lit (CHR '' ''),
       Rep Digit 4 4]]"

section \<open>Python's float() on a string\<close>

text \<open>
  \<^verbatim>\<open>float(s)\<close> raises \<^verbatim>\<open>ValueError\<close> unless the string, with surrounding whitespace
  removed, is an optional sign followed by \<^verbatim>\<open>inf\<close>, \<^verbatim>\<open>infinity\<close> or \<^verbatim>\<open>nan\<close> in any
  letter case, or by a decimal number: digits with an optional point, at least one
  digit, and an optional exponent. Single underscores may stand between two digits.
  \<open>float_ok s\<close> holds when \<^verbatim>\<open>float(s)\<close> returns.
\<close>

definition drop_sign :: "string \<Rightarrow> string" where
  "drop_sign s = (case s of [] \<Rightarrow> [] | c # cs \<Rightarrow> if c = CHR ''+'' \<or> c = CHR ''-'' then cs else s)"

definition exponent_ok :: "string \<Rightarrow> bool" where
  "exponent_ok s =
     (case s of
        [] \<Rightarrow> True
      | c # cs \<Rightarrow> (c = CHR ''e'' \<or> c = CHR ''E'') \<and> drop_sign cs \<noteq> [] \<and>
                  list_all is_digit (drop_sign cs))"

definition decimal_ok :: "string \<Rightarrow> bool" where
  "decimal_ok s =
     (let ip = takeWhile is_digit s;
          r = dropWhile is_digit s
      in case r of
           [] \<Rightarrow> ip \<noteq> []
         | c # cs \<Rightarrow>
             if c = CHR ''.''
             then (ip \<noteq> [] \<or> takeWhile is_digit cs \<noteq> []) \<and> exponent_ok (dropWhile is_digit cs)
             else ip \<noteq> [] \<and> exponent_ok r)"

definition float_syntax :: "string \<Rightarrow> bool" where
  "float_syntax s =
     (let u = drop_sign s
      in py_lower u \<in> set [''inf'', ''infinity'', ''nan''] \<or> decimal_ok u)"

text \<open>An underscore must follow a digit and be followed by a digit.\<close>

fun underscores_ok :: "char \<Rightarrow> string \<Rightarrow> bool" where
  "underscores_ok prev [] = (prev \<noteq> CHR ''_'')"
| "underscores_ok prev (c # cs) =
     ((if c = CHR ''_'' then is_digit prev else prev = CHR ''_'' \<longrightarrow> is_digit c)
      \<and> underscores_ok c cs)"

definition float_ok :: "string \<Rightarrow> bool" where
  "float_ok s =
     (let t = py_strip s
      in if CHR ''_'' \<in> set t
         then underscores_ok (CHR 0x00) t \<and> float_syntax (remove_char (CHR ''_'') t)
         else float_syntax t)"

section \<open>Cleaning transformer (services/cleaner.py)\<close>

text \<open>
  A cleaning-log entry is the dictionary the code appends, one constructor per
  \<^verbatim>\<open>"operation"\<close>, carrying the values of its other keys (the description is formatted from
  the same values): \<^verbatim>\<open>count\<close>; \<^verbatim>\<open>count\<close> and \<^verbatim>\<open>columns\<close>; \<^verbatim>\<open>count\<close>; \<^verbatim>\<open>column\<close>,
  \<^verbatim>\<open>converted_count\<close> and \<^verbatim>\<open>failed_count\<close>; \<^verbatim>\<open>column\<close> and \<^verbatim>\<open>coerced_count\<close>;
  \<^verbatim>\<open>column\<close>; \<^verbatim>\<open>column\<close> and \<^verbatim>\<open>count\<close>; \<^verbatim>\<open>column\<close> and \<^verbatim>\<open>count\<close>.
\<close>

datatype log_entry =
    Remove_empty_rows int
  | Remove_empty_columns int "string list"
  | Trim_whitespace nat
  | Convert_dates string nat int
  | Coerce_to_numeric string int
  | Convert_to_numeric string
  | Remove_infinity string nat
  | Normalize_text string nat

type_synonym cleaning_log = "log_entry list"

text \<open>\<^verbatim>\<open>series.dropna().head(100)\<close>\<close>

definition sample_of :: "column \<Rightarrow> cell list" where
  "sample_of series = take 100 (dropna (vals series))"

definition matches_date_pattern :: "string \<Rightarrow> bool" where
  "matches_date_pattern val = list_ex (\<lambda>pattern. re_match pattern (py_strip val)) date_patterns"

text \<open>
  \<^verbatim>\<open>is_date_column\<close>. The quotient \<^verbatim>\<open>date_count / len(sample)\<close> is compared as an exact
  fraction: with at most 100 sampled values the floating-point comparison with
  \<^verbatim>\<open>0.7\<close> has the same outcome.
\<close>

definition is_date_column :: "pandas \<Rightarrow> column \<Rightarrow> bool" where
  "is_date_column L series =
     (let sample = sample_of series
      in if length sample = 0 then False
         else let date_count =
                    fold (\<lambda>val n. if matches_date_pattern (py_str L val) then n + 1 else n)
                      sample (0::nat)
              in (of_nat date_count / of_nat (length sample) :: rat) > 7 / 10)"

text \<open>
  \<^verbatim>\<open>convert_to_date\<close>. The \<^verbatim>\<open>try\<close> block assigns the parsed column first, then counts,
  and only with a positive \<open>converted_count\<close> formats the dates and logs; the
  \<^verbatim>\<open>except\<close> branch restores \<open>original\<close>. \<^verbatim>\<open>strftime\<close> leaves \<^verbatim>\<open>NaT\<close> missing.
\<close>

definition convert_to_date ::
  "pandas \<Rightarrow> frame \<Rightarrow> string \<Rightarrow> py_error + frame \<times> cleaning_log" where
  "convert_to_date L df col =
     (case getitem df col of
        Inl e \<Rightarrow> Inl e
      | Inr original \<Rightarrow>
          (case to_datetime L (vals original) of
             None \<Rightarrow> Inr (setitem df col original, [])
           | Some parsed \<Rightarrow>
               let df = setitem df col
                          \<lparr>dtype = Datetime64,
                           vals = map (\<lambda>p. case p of None \<Rightarrow> Null | Some d \<Rightarrow> Timestamp d) parsed\<rparr>;
                   converted_count = length (filter (\<lambda>p. p \<noteq> None) parsed);
                   failed_count = int (notna_sum (vals original)) - int converted_count
               in if converted_count > 0
                  then
                    let formatted =
                          map (\<lambda>p. case p of None \<Rightarrow> Null | Some d \<Rightarrow> Text (strftime d)) parsed;
                        replaced = map (\<lambda>c. if c = Text ''NaT'' then Null else c) formatted
                    in Inr (setitem df col \<lparr>dtype = Object, vals = replaced\<rparr>,
                            [Convert_dates col converted_count failed_count])
                  else Inr (df, [])))"

text \<open>The string a sampled value is parsed from in \<^verbatim>\<open>should_be_numeric\<close>.\<close>

definition strip_formatting :: "string \<Rightarrow> string" where
  "strip_formatting val_str =
     remove_char (CHR ''%'') (remove_char (CHR ''$'') (remove_char (CHR '','') val_str))"

definition parses_as_number :: "pandas \<Rightarrow> cell \<Rightarrow> bool" where
  "parses_as_number L val = float_ok (strip_formatting (py_strip (py_str L val)))"

text \<open>
  \<^verbatim>\<open>should_be_numeric\<close>; the quotient is an exact fraction, as in \<open>is_date_column\<close>.
\<close>

definition should_be_numeric :: "pandas \<Rightarrow> column \<Rightarrow> bool" where
  "should_be_numeric L series =
     (let sample = sample_of series
      in if length sample = 0 then False
         else let numeric_count =
                    fold (\<lambda>val n. if parses_as_number L val then n + 1 else n) sample (0::nat)
              in (of_nat numeric_count / of_nat (length sample) :: rat) > 8 / 10)"

definition missing_tokens :: "string list" where
  "missing_tokens = ['''', ''nan'', ''None'', ''null'', ''N/A'', ''n/a'', ''-'']"

text \<open>
  \<^verbatim>\<open>convert_to_numeric\<close>: \<^verbatim>\<open>astype(str)\<close> prints every cell, the missing ones too; the three
  formatting characters are removed, the text stripped, the missing tokens replaced by
  \<^verbatim>\<open>None\<close>, and the result handed to \<^verbatim>\<open>pd.to_numeric\<close>.
\<close>

definition convert_to_numeric ::
  "pandas \<Rightarrow> frame \<Rightarrow> string \<Rightarrow> py_error + frame \<times> cleaning_log" where
  "convert_to_numeric L df col =
     (case getitem df col of
        Inl e \<Rightarrow> Inl e
      | Inr series \<Rightarrow>
          let original_non_null = notna_sum (vals series);
              strs = map (\<lambda>c. py_strip (strip_formatting (py_str L c))) (vals series);
              replaced = map (\<lambda>s. if s \<in> set missing_tokens then Null else Text s) strs;
              numeric = to_numeric L replaced;
              new_non_null = notna_sum (vals numeric);
              coerced_count = int original_non_null - int new_non_null
          in Inr (setitem df col numeric,
                  (if coerced_count > 0 then [Coerce_to_numeric col coerced_count]
                   else [Convert_to_numeric col])))"

definition is_inf :: "cell \<Rightarrow> bool" where
  "is_inf c = (c = Float PInf \<or> c = Float NInf)"

definition clean_numeric_column :: "frame \<Rightarrow> string \<Rightarrow> py_error + frame \<times> cleaning_log" where
  "clean_numeric_column df col =
     (case getitem df col of
        Inl e \<Rightarrow> Inl e
      | Inr series \<Rightarrow>
          if is_float_dtype series
          then let inf_count = length (filter is_inf (vals series))
               in if inf_count > 0
                  then Inr (setitem df col
                              (series\<lparr>vals := map (\<lambda>c. if is_inf c then Null else c) (vals series)\<rparr>),
                            [Remove_infinity col inf_count])
                  else Inr (df, [])
          else Inr (df, []))"

definition normalize_text_column ::
  "pandas \<Rightarrow> frame \<Rightarrow> string \<Rightarrow> py_error + frame \<times> cleaning_log" where
  "normalize_text_column L df col =
     (case getitem df col of
        Inl e \<Rightarrow> Inl e
      | Inr series \<Rightarrow>
          if notna_sum (vals series) = 0 then Inr (df, [])
          else
            let changes =
                  length (filter (\<lambda>c. notna c \<and> py_str L c \<noteq> py_lower (py_str L c)) (vals series))
            in if changes > 0
               then Inr (setitem df col
                           (series\<lparr>vals := map (\<lambda>c. if notna c then Text (py_lower (py_str L c)) else c)
                                             (vals series)\<rparr>),
                         [Normalize_text col changes])
               else Inr (df, []))"

definition process_column ::
  "pandas \<Rightarrow> frame \<Rightarrow> string \<Rightarrow> py_error + frame \<times> cleaning_log" where
  "process_column L df col =
     (case getitem df col of
        Inl e \<Rightarrow> Inl e
      | Inr series \<Rightarrow>
          if is_numeric_dtype series then clean_numeric_column df col
          else if is_datetime64_any_dtype series then Inr (df, [])
          else if is_date_column L series then convert_to_date L df col
          else if should_be_numeric L series then convert_to_numeric L df col
          else normalize_text_column L df col)"

text \<open>
  Stage 3 of \<^verbatim>\<open>clean_dataframe\<close>: the loop over the object columns, with the frame and
  \<open>trimmed_count\<close> as its state. Every cell of the column that is not missing is replaced
  by its stripped text.
\<close>

fun trim_loop :: "pandas \<Rightarrow> string list \<Rightarrow> frame \<Rightarrow> nat \<Rightarrow> py_error + frame \<times> nat" where
  "trim_loop L [] df trimmed_count = Inr (df, trimmed_count)"
| "trim_loop L (col # string_cols) df trimmed_count =
     (case getitem df col of
        Inl e \<Rightarrow> Inl e
      | Inr series \<Rightarrow>
          let changes =
                length (filter (\<lambda>c. notna c \<and> py_str L c \<noteq> py_strip (py_str L c)) (vals series));
              trimmed = map (\<lambda>c. if notna c then Text (py_strip (py_str L c)) else c) (vals series)
          in trim_loop L string_cols (setitem df col (series\<lparr>vals := trimmed\<rparr>))
               (trimmed_count + changes))"

text \<open>Stages 4 and 5: the loop over \<^verbatim>\<open>df.columns\<close>.\<close>

fun process_loop ::
  "pandas \<Rightarrow> string list \<Rightarrow> frame \<Rightarrow> cleaning_log \<Rightarrow> py_error + frame \<times> cleaning_log" where
  "process_loop L [] df cleaning_log = Inr (df, cleaning_log)"
| "process_loop L (col # rest) df cleaning_log =
     (case process_column L df col of
        Inl e \<Rightarrow> Inl e
      | Inr (df', col_log) \<Rightarrow> process_loop L rest df' (cleaning_log @ col_log))"

text \<open>\<^verbatim>\<open>df.select_dtypes(include=['object']).columns\<close>\<close>

definition object_columns :: "frame \<Rightarrow> string list" where
  "object_columns df = map fst (filter (\<lambda>(name, c). dtype c = Object) (cols df))"

text \<open>
  The stages of \<^verbatim>\<open>clean_dataframe\<close> one by one, each returning the frame it leaves in
  \<open>df\<close> and the entries it appends.
\<close>

definition remove_empty_rows :: "frame \<Rightarrow> frame \<times> cleaning_log" where
  "remove_empty_rows df =
     (let original_rows = len df;
          df' = dropna_rows df;
          rows_removed = int original_rows - int (len df')
      in (df', if rows_removed > 0 then [Remove_empty_rows rows_removed] else []))"

definition remove_empty_columns :: "frame \<Rightarrow> frame \<times> cleaning_log" where
  "remove_empty_columns df =
     (let original_cols = length (columns df);
          empty_cols = all_na_columns df;
          df' = dropna_cols df;
          cols_removed = int original_cols - int (length (columns df'))
      in (df', if cols_removed > 0 then [Remove_empty_columns cols_removed empty_cols] else []))"

definition trim_whitespace :: "pandas \<Rightarrow> frame \<Rightarrow> py_error + frame \<times> cleaning_log" where
  "trim_whitespace L df =
     (case trim_loop L (object_columns df) df 0 of
        Inl e \<Rightarrow> Inl e
      | Inr (df', trimmed_count) \<Rightarrow>
          Inr (df', if trimmed_count > 0 then [Trim_whitespace trimmed_count] else []))"

text \<open>
  \<^verbatim>\<open>clean_dataframe\<close> on the value of the frame. \<^verbatim>\<open>df = df.copy()\<close> does not change the
  value; which object each stage writes to is the subject of \<open>clean_dataframe_obj\<close>.
\<close>

definition clean_dataframe :: "pandas \<Rightarrow> frame \<Rightarrow> py_error + frame \<times> cleaning_log" where
  "clean_dataframe L df =
     (let cleaning_log = [];
          (df, log1) = remove_empty_rows df;
          cleaning_log = cleaning_log @ log1;
          (df, log2) = remove_empty_columns df;
          cleaning_log = cleaning_log @ log2
      in case trim_whitespace L df of
           Inl e \<Rightarrow> Inl e
         | Inr (df, log3) \<Rightarrow> process_loop L (columns df) df (cleaning_log @ log3))"

subsection \<open>The same function on DataFrame objects\<close>

text \<open>
  DataFrames are mutable objects. The store holds the frames that exist, a reference is
  a position in it. \<^verbatim>\<open>df.copy()\<close> and both \<^verbatim>\<open>df.dropna(...)\<close> create a new object and
  rebind the local name \<open>df\<close>; \<^verbatim>\<open>df.loc[mask, col] = ...\<close> and \<^verbatim>\<open>df[col] = ...\<close> write into
  the object \<open>df\<close> is bound to, and \<^verbatim>\<open>process_column\<close> returns the object it was given.
\<close>

type_synonym store = "frame list"

type_synonym ref = nat

definition alloc :: "store \<Rightarrow> frame \<Rightarrow> store \<times> ref" where
  "alloc s f = (s @ [f], length s)"

definition clean_dataframe_obj ::
  "pandas \<Rightarrow> store \<Rightarrow> ref \<Rightarrow> py_error + store \<times> ref \<times> cleaning_log" where
  "clean_dataframe_obj L s arg =
     (let cleaning_log = [];
          (s, df) = alloc s (s ! arg);
          (s, df, log1) = (let (f, l) = remove_empty_rows (s ! df); (s, r) = alloc s f in (s, r, l));
          cleaning_log = cleaning_log @ log1;
          (s, df, log2) = (let (f, l) = remove_empty_columns (s ! df); (s, r) = alloc s f in (s, r, l));
          cleaning_log = cleaning_log @ log2
      in case trim_whitespace L (s ! df) of
           Inl e \<Rightarrow> Inl e
         | Inr (f, log3) \<Rightarrow>
             let s = s[df := f] in
             (case process_loop L (columns (s ! df)) (s ! df) (cleaning_log @ log3) of
                Inl e \<Rightarrow> Inl e
              | Inr (f, cleaning_log) \<Rightarrow> Inr (s[df := f], df, cleaning_log)))"

section \<open>Validation engine and status scorer (services/validator.py, models/schemas.py)\<close>

datatype data_status = READY | WARNING | NOT_READY

datatype issue_type = MISSING_VALUE | DUPLICATE_ROW | MIXED_TYPE | INVALID_DATE | INVALID_NUMERIC

datatype issue_severity = LOW | MEDIUM | HIGH

text \<open>
  The description of an issue is an f-string; the model keeps the values it is formatted
  from: the column, the count, the percentage and the row labels listed; the count, the
  percentage and the row labels listed; the column and the count per type name.
\<close>

datatype description =
    Missing_description string nat rat "nat list"
  | Duplicate_description nat rat "nat list"
  | Mixed_description string "(string \<times> nat) list"

record validation_issue =
  row_number :: "int option"
  column_name :: "string option"
  issue_type :: issue_type
  severity :: issue_severity
  description :: description

text \<open>
  \<^verbatim>\<open>count / total\<close>. A percentage is an exact fraction in the model. A zero divisor is an
  error value, so that a division the code does not guard shows in the result.
\<close>

definition divide :: "nat \<Rightarrow> nat \<Rightarrow> py_error + rat" where
  "divide n d = (if d = 0 then Inl ZeroDivisionError else Inr (of_nat n / of_nat d))"

definition isna_sum :: "cell list \<Rightarrow> nat" where
  "isna_sum xs = length (filter (\<lambda>c. \<not> notna c) xs)"

text \<open>The row labels at which a cell of the column is missing: \<^verbatim>\<open>df[df[col].isna()].index\<close>.\<close>

definition isna_rows :: "frame \<Rightarrow> column \<Rightarrow> nat list" where
  "isna_rows df c = select (map (\<lambda>x. \<not> notna x) (vals c)) (index df)"

definition missing_severity :: "rat \<Rightarrow> issue_severity" where
  "missing_severity null_pct =
     (if null_pct > 50 then HIGH else if null_pct > 20 then MEDIUM else LOW)"

fun check_missing_loop ::
  "frame \<Rightarrow> (string \<times> column) list \<Rightarrow> validation_issue list \<Rightarrow> py_error + validation_issue list"
  where
  "check_missing_loop df [] issues = Inr issues"
| "check_missing_loop df ((col, c) # rest) issues =
     (let null_count = isna_sum (vals c)
      in if null_count > 0
         then (case divide null_count (len df) of
                 Inl e \<Rightarrow> Inl e
               | Inr q \<Rightarrow>
                   let null_pct = q * 100;
                       null_rows = take 10 (isna_rows df c)
                   in check_missing_loop df rest
                        (issues @
                         [\<lparr>row_number = None, column_name = Some col, issue_type = MISSING_VALUE,
                           severity = missing_severity null_pct,
                           description = Missing_description col null_count null_pct null_rows\<rparr>]))
         else check_missing_loop df rest issues)"

definition check_missing_values :: "frame \<Rightarrow> py_error + validation_issue list" where
  "check_missing_values df = check_missing_loop df (cols df) []"

text \<open>
  \<^verbatim>\<open>df.duplicated(keep='first')\<close>: a row is marked when an earlier row has the same cells;
  the first of equal rows is never marked. pandas returns an empty mask for an empty
  frame (no row or no column). Cells are compared structurally.
\<close>

definition empty_frame :: "frame \<Rightarrow> bool" where
  "empty_frame df = (len df = 0 \<or> cols df = [])"

fun duplicated_rows :: "cell list list \<Rightarrow> cell list list \<Rightarrow> bool list" where
  "duplicated_rows seen [] = []"
| "duplicated_rows seen (r # rs) = (r \<in> set seen) # duplicated_rows (seen @ [r]) rs"

definition duplicated :: "frame \<Rightarrow> bool list" where
  "duplicated df = (if empty_frame df then [] else duplicated_rows [] (rows df))"

definition mask_sum :: "bool list \<Rightarrow> nat" where
  "mask_sum m = length (filter (\<lambda>b. b) m)"

definition duplicate_severity :: "rat \<Rightarrow> issue_severity" where
  "duplicate_severity duplicate_pct =
     (if duplicate_pct > 50 then HIGH else if duplicate_pct > 10 then MEDIUM else LOW)"

definition check_duplicates :: "frame \<Rightarrow> py_error + validation_issue list" where
  "check_duplicates df =
     (let duplicate_mask = duplicated df;
          duplicate_count = mask_sum duplicate_mask
      in if duplicate_count > 0
         then (case divide duplicate_count (len df) of
                 Inl e \<Rightarrow> Inl e
               | Inr q \<Rightarrow>
                   let duplicate_pct = q * 100;
                       duplicate_rows = take 20 (select duplicate_mask (index df))
                   in Inr [\<lparr>row_number = None, column_name = None, issue_type = DUPLICATE_ROW,
                            severity = duplicate_severity duplicate_pct,
                            description =
                              Duplicate_description duplicate_count duplicate_pct duplicate_rows\<rparr>])
         else Inr [])"

text \<open>\<^verbatim>\<open>type(x).__name__\<close> of a cell that is not missing.\<close>

fun type_name :: "cell \<Rightarrow> string" where
  "type_name Null = ''NoneType''"
| "type_name (Bool b) = ''bool''"
| "type_name (Integer i) = ''int''"
| "type_name (Float f) = ''float''"
| "type_name (Text s) = ''str''"
| "type_name (Timestamp d) = ''Timestamp''"

text \<open>\<^verbatim>\<open>series.unique()\<close>: the distinct values in the order of their first occurrence.\<close>

fun unique :: "'a list \<Rightarrow> 'a list \<Rightarrow> 'a list" where
  "unique seen [] = seen"
| "unique seen (x # xs) = (if x \<in> set seen then unique seen xs else unique (seen @ [x]) xs)"

definition numeric_types :: "string list" where
  "numeric_types = [''int'', ''float'', ''int64'', ''float64'', ''int32'', ''float32'']"

text \<open>
  The body of the loop of \<^verbatim>\<open>check_mixed_types\<close> for one column: the issues it appends.
  \<^verbatim>\<open>value_counts().to_dict()\<close> is the list of the type names with their counts.
\<close>

definition mixed_type_issues :: "string \<Rightarrow> column \<Rightarrow> validation_issue list" where
  "mixed_type_issues col c =
     (let non_null = dropna (vals c)
      in if length non_null = 0 then []
         else
           let names = map type_name non_null;
               types = unique [] names;
               types = filter (\<lambda>t. t \<notin> set [''NoneType'', ''float''] \<or> length types > 2) types
           in if length types > 1
              then if \<not> list_all (\<lambda>t. t \<in> set numeric_types) types
                   then let type_counts = map (\<lambda>t. (t, count_list names t)) (unique [] names)
                        in [\<lparr>row_number = None, column_name = Some col, issue_type = MIXED_TYPE,
                             severity = MEDIUM,
                             description = Mixed_description col type_counts\<rparr>]
                   else []
              else [])"

definition check_mixed_types :: "frame \<Rightarrow> validation_issue list" where
  "check_mixed_types df = concat (map (\<lambda>(col, c). mixed_type_issues col c) (cols df))"

definition validate_dataframe :: "frame \<Rightarrow> py_error + validation_issue list" where
  "validate_dataframe df =
     (case check_missing_values df of
        Inl e \<Rightarrow> Inl e
      | Inr missing_issues \<Rightarrow>
          (case check_duplicates df of
             Inl e \<Rightarrow> Inl e
           | Inr duplicate_issues \<Rightarrow>
               Inr (missing_issues @ duplicate_issues @ check_mixed_types df)))"

text \<open>
  The status reason is an f-string as well; the constructor names the branch and carries
  the value it prints.
\<close>

datatype status_reason =
    High_severity_issues nat
  | Missing_above_20 rat
  | Duplicates_above_50 rat
  | Medium_severity_issues nat
  | Missing_above_5 rat
  | Quality_good

record validation_summary =
  total_rows :: nat
  total_columns :: nat
  missing_value_count :: nat
  duplicate_row_count :: nat
  issue_count :: nat
  status :: data_status
  status_reason :: status_reason

text \<open>\<^verbatim>\<open>df.isna().sum().sum()\<close>\<close>

definition missing_count :: "frame \<Rightarrow> nat" where
  "missing_count df = sum_list (map (\<lambda>(name, c). isna_sum (vals c)) (cols df))"

definition total_cells :: "frame \<Rightarrow> nat" where
  "total_cells df = len df * length (columns df)"

text \<open>
  \<^verbatim>\<open>(missing_count / total_cells) * 100 if total_cells > 0 else 0\<close> and
  \<^verbatim>\<open>(duplicate_count / total_rows) * 100 if total_rows > 0 else 0\<close>
\<close>

definition missing_percentage :: "frame \<Rightarrow> py_error + rat" where
  "missing_percentage df =
     (if total_cells df > 0
      then (case divide (missing_count df) (total_cells df) of
              Inl e \<Rightarrow> Inl e
            | Inr q \<Rightarrow> Inr (q * 100))
      else Inr 0)"

definition duplicate_percentage :: "frame \<Rightarrow> py_error + rat" where
  "duplicate_percentage df =
     (if len df > 0
      then (case divide (mask_sum (duplicated df)) (len df) of
              Inl e \<Rightarrow> Inl e
            | Inr q \<Rightarrow> Inr (q * 100))
      else Inr 0)"

definition count_severity :: "issue_severity \<Rightarrow> validation_issue list \<Rightarrow> nat" where
  "count_severity sev issues = sum_list (map (\<lambda>i. if severity i = sev then 1 else 0) issues)"

definition calculate_status ::
  "frame \<Rightarrow> validation_issue list \<Rightarrow> 'm \<Rightarrow> py_error + validation_summary" where
  "calculate_status df issues metadata =
     (case missing_percentage df of
        Inl e \<Rightarrow> Inl e
      | Inr missing_pct \<Rightarrow>
      (case duplicate_percentage df of
        Inl e \<Rightarrow> Inl e
      | Inr duplicate_pct \<Rightarrow>
          let high_severity = count_severity HIGH issues;
              medium_severity = count_severity MEDIUM issues;
              low_severity = count_severity LOW issues;
              (status, reason) =
                (if high_severity > 0 \<or> missing_pct > 20 \<or> duplicate_pct > 50
                 then (NOT_READY,
                       if high_severity > 0 then High_severity_issues high_severity
                       else if missing_pct > 20 then Missing_above_20 missing_pct
                       else Duplicates_above_50 duplicate_pct)
                 else if medium_severity > 0 \<or> missing_pct > 5
                 then (WARNING,
                       if medium_severity > 0 then Medium_severity_issues medium_severity
                       else Missing_above_5 missing_pct)
                 else (READY, Quality_good))
          in Inr \<lparr>total_rows = len df,
                  total_columns = length (columns df),
                  missing_value_count = missing_count df,
                  duplicate_row_count = mask_sum (duplicated df),
                  issue_count = length issues,
                  status = status,
                  status_reason = reason\<rparr>))"

section \<open>An instance of the library functions\<close>

text \<open>
  For evaluating the model on concrete frames: a date parser that knows the formats
  \<^verbatim>\<open>YYYY-MM-DD\<close> and \<^verbatim>\<open>MM/DD/YYYY\<close> and rejects a month or a day out of range; a numeric
  parser that reads decimal integers; and a printer of floats that writes the integer
  part, a point and the first decimal. As \<^verbatim>\<open>pd.to_datetime\<close> does when no format is
  given, the date parser takes the format of the column from its first value that is not
  missing and reads every value in that format: a value in another format is \<^verbatim>\<open>NaT\<close>.
\<close>

definition digits_value :: "string \<Rightarrow> nat" where
  "digits_value s = fold (\<lambda>c n. 10 * n + (of_char c - of_char (CHR ''0''))) s 0"

definition days_in_month :: "nat \<Rightarrow> nat \<Rightarrow> nat" where
  "days_in_month y m =
     (if m = 2 then (if (y mod 4 = 0 \<and> y mod 100 \<noteq> 0) \<or> y mod 400 = 0 then 29 else 28)
      else if m \<in> set [4, 6, 9, 11] then 30 else 31)"

definition valid_date :: "date \<Rightarrow> bool" where
  "valid_date d =
     (1 \<le> month d \<and> month d \<le> 12 \<and> 1 \<le> day d \<and> day d \<le> days_in_month (year d) (month d))"

datatype date_format = Year_month_day | Month_day_year

text \<open>Reading a text in one format (\<^verbatim>\<open>%Y-%m-%d\<close> or \<^verbatim>\<open>%m/%d/%Y\<close>), exactly.\<close>

fun read_date_as :: "date_format \<Rightarrow> string \<Rightarrow> date option" where
  "read_date_as Year_month_day s =
     (if re_match (date_patterns ! 0) s
      then let d = Date (digits_value (take 4 s)) (digits_value (take 2 (drop 5 s)))
                     (digits_value (drop 8 s))
           in if valid_date d then Some d else None
      else None)"
| "read_date_as Month_day_year s =
     (if re_match (date_patterns ! 1) s
      then let d = Date (digits_value (drop 6 s)) (digits_value (take 2 s))
                     (digits_value (take 2 (drop 3 s)))
           in if valid_date d then Some d else None
      else None)"

text \<open>
  The format of the whole column: the one in which the first value that is not missing
  reads as a date, if there is one.
\<close>

definition guess_format :: "cell list \<Rightarrow> date_format option" where
  "guess_format xs =
     (case dropna xs of
        Text s # rest \<Rightarrow>
          if read_date_as Year_month_day s \<noteq> None then Some Year_month_day
          else if read_date_as Month_day_year s \<noteq> None then Some Month_day_year
          else None
      | _ \<Rightarrow> None)"

text \<open>
  With a format every text is read in that format; with none, each text is read on its
  own in either format.
\<close>

fun read_date_cell :: "date_format option \<Rightarrow> cell \<Rightarrow> date option" where
  "read_date_cell (Some f) (Text s) = read_date_as f s"
| "read_date_cell None (Text s) =
     (case read_date_as Year_month_day s of
        Some d \<Rightarrow> Some d
      | None \<Rightarrow> read_date_as Month_day_year s)"
| "read_date_cell f (Timestamp d) = Some d"
| "read_date_cell f c = None"

definition read_dates :: "cell list \<Rightarrow> date option list option" where
  "read_dates xs = Some (map (read_date_cell (guess_format xs)) xs)"

fun read_integer_cell :: "cell \<Rightarrow> cell" where
  "read_integer_cell (Text s) =
     (let u = (case s of [] \<Rightarrow> [] | c # cs \<Rightarrow> if c = CHR ''-'' then cs else s)
      in if u \<noteq> [] \<and> list_all is_digit u
         then Integer (if u = s then int (digits_value u) else - int (digits_value u))
         else Null)"
| "read_integer_cell (Integer i) = Integer i"
| "read_integer_cell c = Null"

fun as_float :: "cell \<Rightarrow> cell" where
  "as_float (Integer i) = Float (Fin (of_int i))"
| "as_float c = c"

definition read_integers :: "cell list \<Rightarrow> column" where
  "read_integers xs =
     (let ys = map read_integer_cell xs
      in if list_all notna ys then \<lparr>dtype = Int64, vals = ys\<rparr>
         else \<lparr>dtype = Float64, vals = map as_float ys\<rparr>)"

fun print_float :: "fl \<Rightarrow> string" where
  "print_float PInf = ''inf''"
| "print_float NInf = ''-inf''"
| "print_float (Fin r) =
     (if r < 0 then ''-'' else '''') @ str_nat (nat \<lfloor>\<bar>r\<bar>\<rfloor>) @ ''.''
       @ str_nat (nat \<lfloor>(\<bar>r\<bar> - of_int \<lfloor>\<bar>r\<bar>\<rfloor>) * 10\<rfloor>)"

definition simple_pandas :: pandas where
  "simple_pandas =
     \<lparr>to_datetime = read_dates,
      to_numeric = read_integers,
      float_str = print_float\<rparr>"

section \<open>The cleaner column by column\<close>

text \<open>
  Every stage of \<^verbatim>\<open>clean_dataframe\<close> after the two \<^verbatim>\<open>dropna\<close> calls reads and writes one
  column at a time. The functions below are the effect of stage 3 and of
  \<^verbatim>\<open>process_column\<close> on the column alone; the lemmas of the last sections show that the
  frame-level functions above compute exactly these.
\<close>

definition trim_series :: "pandas \<Rightarrow> column \<Rightarrow> column" where
  "trim_series L c =
     (if dtype c = Object
      then c\<lparr>vals := map (\<lambda>x. if notna x then Text (py_strip (py_str L x)) else x) (vals c)\<rparr>
      else c)"

definition trim_changes :: "pandas \<Rightarrow> column \<Rightarrow> nat" where
  "trim_changes L c =
     (if dtype c = Object
      then length (filter (\<lambda>x. notna x \<and> py_str L x \<noteq> py_strip (py_str L x)) (vals c))
      else 0)"

definition date_series :: "pandas \<Rightarrow> string \<Rightarrow> column \<Rightarrow> column \<times> cleaning_log" where
  "date_series L col c =
     (case to_datetime L (vals c) of
        None \<Rightarrow> (c, [])
      | Some parsed \<Rightarrow>
          if filter (\<lambda>p. p \<noteq> None) parsed = []
          then (\<lparr>dtype = Datetime64, vals = map (\<lambda>p. Null) parsed\<rparr>, [])
          else (\<lparr>dtype = Object,
                 vals = map (\<lambda>p. case p of None \<Rightarrow> Null | Some d \<Rightarrow> Text (strftime d)) parsed\<rparr>,
                [Convert_dates col (length (filter (\<lambda>p. p \<noteq> None) parsed))
                   (int (notna_sum (vals c)) - int (length (filter (\<lambda>p. p \<noteq> None) parsed)))]))"

definition numeric_series :: "pandas \<Rightarrow> string \<Rightarrow> column \<Rightarrow> column \<times> cleaning_log" where
  "numeric_series L col c =
     (let numeric =
            to_numeric L
              (map (\<lambda>s. if s \<in> set missing_tokens then Null else Text s)
                 (map (\<lambda>x. py_strip (strip_formatting (py_str L x))) (vals c)));
          coerced_count = int (notna_sum (vals c)) - int (notna_sum (vals numeric))
      in (numeric,
          if coerced_count > 0 then [Coerce_to_numeric col coerced_count]
          else [Convert_to_numeric col]))"

definition infinity_series :: "string \<Rightarrow> column \<Rightarrow> column \<times> cleaning_log" where
  "infinity_series col c =
     (if is_float_dtype c \<and> filter is_inf (vals c) \<noteq> []
      then (c\<lparr>vals := map (\<lambda>x. if is_inf x then Null else x) (vals c)\<rparr>,
            [Remove_infinity col (length (filter is_inf (vals c)))])
      else (c, []))"

definition text_series :: "pandas \<Rightarrow> string \<Rightarrow> column \<Rightarrow> column \<times> cleaning_log" where
  "text_series L col c =
     (if filter (\<lambda>x. notna x \<and> py_str L x \<noteq> py_lower (py_str L x)) (vals c) = []
      then (c, [])
      else (c\<lparr>vals := map (\<lambda>x. if notna x then Text (py_lower (py_str L x)) else x) (vals c)\<rparr>,
            [Normalize_text col
               (length (filter (\<lambda>x. notna x \<and> py_str L x \<noteq> py_lower (py_str L x)) (vals c)))]))"

definition process_series :: "pandas \<Rightarrow> string \<Rightarrow> column \<Rightarrow> column \<times> cleaning_log" where
  "process_series L col c =
     (if is_numeric_dtype c then infinity_series col c
      else if is_datetime64_any_dtype c then (c, [])
      else if is_date_column L c then date_series L col c
      else if should_be_numeric L c then numeric_series L col c
      else text_series L col c)"

text \<open>A text with no whitespace at either end: \<^verbatim>\<open>s.strip() == s\<close>.\<close>

definition stripped :: "string \<Rightarrow> bool" where
  "stripped s = (s = [] \<or> (\<not> is_space (hd s) \<and> \<not> is_space (last s)))"

text \<open>
  What holds of every column of a frame the cleaner returns: it has a numeric or a
  datetime dtype, or it is an object column of missing cells and stripped texts that is
  either a date candidate, or no numeric candidate and all in lower case.
\<close>

definition text_cells :: "(string \<Rightarrow> bool) \<Rightarrow> cell list \<Rightarrow> bool" where
  "text_cells p xs = list_all (\<lambda>x. case x of Null \<Rightarrow> True | Text s \<Rightarrow> p s | _ \<Rightarrow> False) xs"

definition settled :: "pandas \<Rightarrow> column \<Rightarrow> bool" where
  "settled L c =
     (is_numeric_dtype c \<or> is_datetime64_any_dtype c \<or>
      (dtype c = Object \<and> text_cells stripped (vals c) \<and>
       (is_date_column L c \<or>
        (\<not> should_be_numeric L c \<and> text_cells (\<lambda>s. py_lower s = s) (vals c)))))"

text \<open>
  What the proofs about a second run assume of the library: \<^verbatim>\<open>pd.to_numeric\<close> returns a
  column of a numeric dtype, and both parsers return one cell per cell given.
\<close>

definition library_ok :: "pandas \<Rightarrow> bool" where
  "library_ok L =
     ((\<forall>xs. is_numeric_dtype (to_numeric L xs) \<and> length (vals (to_numeric L xs)) = length xs)
      \<and> (\<forall>xs parsed. to_datetime L xs = Some parsed \<longrightarrow> length parsed = length xs))"

text \<open>The entries a second run on a cleaned frame can still log.\<close>

fun rerun_entry :: "log_entry \<Rightarrow> bool" where
  "rerun_entry (Remove_empty_rows n) = True"
| "rerun_entry (Remove_empty_columns n names) = True"
| "rerun_entry (Convert_dates col n m) = True"
| "rerun_entry (Remove_infinity col n) = True"
| "rerun_entry (Trim_whitespace n) = False"
| "rerun_entry (Coerce_to_numeric col n) = False"
| "rerun_entry (Convert_to_numeric col) = False"
| "rerun_entry (Normalize_text col n) = False"


section \<open>Shared lemmas\<close>

lemmas char_class_defs = is_space_def is_digit_def is_upper_def is_lower_def is_word_def

lemma fold_count: "fold (\<lambda>x n. if P x then n + 1 else n) xs (k::nat) = k + length (filter P xs)"
  by (induction xs arbitrary: k) auto

lemma should_be_numeric_iff:
  "should_be_numeric L series \<longleftrightarrow>
     80 * length (sample_of series) < 100 * length (filter (parses_as_number L) (sample_of series))"
proof (cases "sample_of series = []")
  case True
  then show ?thesis by (simp add: should_be_numeric_def)
next
  case False
  define n where "n = length (sample_of series)"
  define k where "k = length (filter (parses_as_number L) (sample_of series))"
  have n: "0 < n" using False by (simp add: n_def)
  have "should_be_numeric L series \<longleftrightarrow> (8 / 10 :: rat) < of_nat k / of_nat n"
    using False by (simp add: should_be_numeric_def Let_def fold_count k_def n_def)
  also have "\<dots> \<longleftrightarrow> (8 / 10 :: rat) * of_nat n < of_nat k"
    using n by (simp add: pos_less_divide_eq)
  also have "\<dots> \<longleftrightarrow> (of_nat (80 * n) :: rat) < of_nat (100 * k)"
    by (simp add: mult.commute)
  also have "\<dots> \<longleftrightarrow> 80 * n < 100 * k"
    by (simp only: of_nat_less_iff)
  finally show ?thesis by (simp add: n_def k_def)
qed

lemma is_date_column_iff:
  "is_date_column L series \<longleftrightarrow>
     70 * length (sample_of series)
       < 100 * length (filter (\<lambda>v. matches_date_pattern (py_str L v)) (sample_of series))"
proof (cases "sample_of series = []")
  case True
  then show ?thesis by (simp add: is_date_column_def)
next
  case False
  define n where "n = length (sample_of series)"
  define k where "k = length (filter (\<lambda>v. matches_date_pattern (py_str L v)) (sample_of series))"
  have n: "0 < n" using False by (simp add: n_def)
  have "is_date_column L series \<longleftrightarrow> (7 / 10 :: rat) < of_nat k / of_nat n"
    using False by (simp add: is_date_column_def Let_def fold_count k_def n_def)
  also have "\<dots> \<longleftrightarrow> (7 / 10 :: rat) * of_nat n < of_nat k"
    using n by (simp add: pos_less_divide_eq)
  also have "\<dots> \<longleftrightarrow> (of_nat (70 * n) :: rat) < of_nat (100 * k)"
    by (simp add: mult.commute)
  also have "\<dots> \<longleftrightarrow> 70 * n < 100 * k"
    by (simp only: of_nat_less_iff)
  finally show ?thesis by (simp add: n_def k_def)
qed

section \<open>The numeric-candidate threshold\<close>

lemma boundary_strings:
  "map (\<lambda>s. float_ok (strip_formatting (py_strip s)))
     [''1,000'', ''$2,500'', ''3,000'', ''4000'', ''bad''] = [True, True, True, True, False]"
  "map matches_date_pattern [''1,000'', ''$2,500'', ''3,000'', ''4000'', ''bad'']
     = [False, False, False, False, False]"
  "map (\<lambda>s. s = py_lower s) [''1,000'', ''$2,500'', ''3,000'', ''4000'', ''bad'']
     = [True, True, True, True, True]"
  by code_simp+

lemma boundary_sample:
  assumes v: "vals c = [Text ''1,000'', Text ''$2,500'', Text ''3,000'', Text ''4000'', Text ''bad'']"
  shows "sample_of c = vals c"
    and "filter (parses_as_number L) (sample_of c)
           = [Text ''1,000'', Text ''$2,500'', Text ''3,000'', Text ''4000'']"
    and "filter (\<lambda>v. matches_date_pattern (py_str L v)) (sample_of c) = []"
    and "filter (\<lambda>c. notna c \<and> py_str L c \<noteq> py_lower (py_str L c)) (vals c) = []"
proof -
  show s: "sample_of c = vals c"
    by (simp add: v sample_of_def dropna_def notna_def)
  show "filter (parses_as_number L) (sample_of c)
          = [Text ''1,000'', Text ''$2,500'', Text ''3,000'', Text ''4000'']"
    unfolding s v using boundary_strings(1) by (simp add: parses_as_number_def)
  show "filter (\<lambda>v. matches_date_pattern (py_str L v)) (sample_of c) = []"
    unfolding s v using boundary_strings(2) by simp
  show "filter (\<lambda>c. notna c \<and> py_str L c \<noteq> py_lower (py_str L c)) (vals c) = []"
    unfolding v using boundary_strings(3) by simp
qed

text \<open>
  C1. \<^verbatim>\<open>should_be_numeric\<close> classifies a column as numeric exactly when strictly more than
  80% of the sampled values that are not missing parse as a number once commas, dollar
  signs and percent signs are removed. Of the sample \<^verbatim>\<open>["1,000", "$2,500", "3,000", "4000",
  "bad"]\<close> exactly 4 of 5 values parse: the column is not classified as numeric, and
  \<^verbatim>\<open>process_column\<close> leaves the frame as it is and logs nothing.
\<close>

theorem should_be_numeric_threshold:
  "(should_be_numeric L series \<longleftrightarrow>
      80 * length (sample_of series)
        < 100 * length (filter (parses_as_number L) (sample_of series)))
   \<and> (vals c = [Text ''1,000'', Text ''$2,500'', Text ''3,000'', Text ''4000'', Text ''bad'']
        \<and> dtype c = Object \<and> getitem df col = Inr c \<longrightarrow>
      length (sample_of c) = 5
      \<and> length (filter (parses_as_number L) (sample_of c)) = 4
      \<and> \<not> should_be_numeric L c
      \<and> process_column L df col = Inr (df, []))"
proof (intro conjI impI)
  show "should_be_numeric L series \<longleftrightarrow>
      80 * length (sample_of series)
        < 100 * length (filter (parses_as_number L) (sample_of series))"
    by (rule should_be_numeric_iff)
next
  assume a: "vals c = [Text ''1,000'', Text ''$2,500'', Text ''3,000'', Text ''4000'', Text ''bad'']
        \<and> dtype c = Object \<and> getitem df col = Inr c"
  then have v: "vals c = [Text ''1,000'', Text ''$2,500'', Text ''3,000'', Text ''4000'', Text ''bad'']"
    and d: "dtype c = Object" and g: "getitem df col = Inr c" by simp_all
  note b = boundary_sample [OF v]
  show len: "length (sample_of c) = 5" by (simp add: b(1) v)
  show cnt: "length (filter (parses_as_number L) (sample_of c)) = 4" by (simp add: b(2))
  show num: "\<not> should_be_numeric L c" by (simp add: should_be_numeric_iff len cnt)
  have dat: "\<not> is_date_column L c" by (simp add: is_date_column_iff len b(3))
  have nn: "notna_sum (vals c) = 5" by (simp add: v notna_sum_def notna_def)
  have "normalize_text_column L df col = Inr (df, [])"
    by (simp add: normalize_text_column_def g b(4) nn)
  then show "process_column L df col = Inr (df, [])"
    by (simp add: process_column_def g d num dat is_numeric_dtype_def is_datetime64_any_dtype_def)
qed

theorem should_be_numeric_threshold_witness:
  "\<not> should_be_numeric simple_pandas
        \<lparr>dtype = Object,
         vals = [Text ''1,000'', Text ''$2,500'', Text ''3,000'', Text ''4000'', Text ''bad'']\<rparr>
   \<and> process_column simple_pandas
        \<lparr>index = [0, 1, 2, 3, 4],
          cols = [(''amount'', \<lparr>dtype = Object,
             vals = [Text ''1,000'', Text ''$2,500'', Text ''3,000'', Text ''4000'', Text ''bad'']\<rparr>)]\<rparr>
        ''amount''
      = Inr (\<lparr>index = [0, 1, 2, 3, 4],
          cols = [(''amount'', \<lparr>dtype = Object,
             vals = [Text ''1,000'', Text ''$2,500'', Text ''3,000'', Text ''4000'', Text ''bad'']\<rparr>)]\<rparr>, [])"
  using should_be_numeric_threshold [of simple_pandas _
      "\<lparr>dtype = Object,
         vals = [Text ''1,000'', Text ''$2,500'', Text ''3,000'', Text ''4000'', Text ''bad'']\<rparr>"
      "\<lparr>index = [0, 1, 2, 3, 4],
          cols = [(''amount'', \<lparr>dtype = Object,
             vals = [Text ''1,000'', Text ''$2,500'', Text ''3,000'', Text ''4000'', Text ''bad'']\<rparr>)]\<rparr>"
      "''amount''"]
  by (simp add: getitem_def)

section \<open>Unique column names\<close>

text \<open>
  C6. The headers \<^verbatim>\<open>["A", "a", "a 1"]\<close> normalize to \<^verbatim>\<open>["a", "a", "a_1"]\<close>, and
  \<^verbatim>\<open>ensure_unique_columns\<close> renames the second \<^verbatim>\<open>a\<close> to \<^verbatim>\<open>a_1\<close>, a name the third
  header already has: the output is \<^verbatim>\<open>["a", "a_1", "a_1"]\<close>, which is not pairwise
  distinct.
\<close>

theorem ensure_unique_columns_collision:
  "normalized_columns [Label ''A'', Label ''a'', Label ''a 1''] = [''a'', ''a_1'', ''a_1'']
   \<and> \<not> distinct (normalized_columns [Label ''A'', Label ''a'', Label ''a 1''])
   \<and> ensure_unique_columns [''a'', ''a'', ''a_1''] = [''a'', ''a_1'', ''a_1'']"
  by (simp add: normalized_columns_def ensure_unique_columns_def py_lower_def py_strip_def
      strip_with_def sub_each_def char_class_defs str_nat.simps)

section \<open>Percentages and severity counts\<close>

lemma count_severity_pos: "0 < count_severity sev issues \<longleftrightarrow> (\<exists>i\<in>set issues. severity i = sev)"
  by (induction issues) (auto simp: count_severity_def)

lemma missing_percentage_eq:
  "missing_percentage df =
     Inr (if total_cells df > 0
          then of_nat (missing_count df) / of_nat (total_cells df) * 100 else 0)"
  by (simp add: missing_percentage_def divide_def)

lemma duplicate_percentage_eq:
  "duplicate_percentage df =
     Inr (if len df > 0
          then of_nat (mask_sum (duplicated df)) / of_nat (len df) * 100 else 0)"
  by (simp add: duplicate_percentage_def divide_def)

lemma calculate_status_eq:
  assumes "missing_percentage df = Inr mp" and "duplicate_percentage df = Inr dp"
  shows "calculate_status df issues metadata =
     Inr \<lparr>total_rows = len df,
          total_columns = length (columns df),
          missing_value_count = missing_count df,
          duplicate_row_count = mask_sum (duplicated df),
          issue_count = length issues,
          status =
            (if (\<exists>i\<in>set issues. severity i = HIGH) \<or> mp > 20 \<or> dp > 50 then NOT_READY
             else if (\<exists>i\<in>set issues. severity i = MEDIUM) \<or> mp > 5 then WARNING
             else READY),
          status_reason =
            (if \<exists>i\<in>set issues. severity i = HIGH
               then High_severity_issues (count_severity HIGH issues)
             else if mp > 20 then Missing_above_20 mp
             else if dp > 50 then Duplicates_above_50 dp
             else if \<exists>i\<in>set issues. severity i = MEDIUM
               then Medium_severity_issues (count_severity MEDIUM issues)
             else if mp > 5 then Missing_above_5 mp
             else Quality_good)\<rparr>"
  unfolding calculate_status_def assms
  by (simp add: Let_def count_severity_pos)

section \<open>Status scoring\<close>

text \<open>
  C3. \<^verbatim>\<open>calculate_status\<close> always returns a summary. Its status is \<^verbatim>\<open>NOT_READY\<close> exactly
  when an issue has severity HIGH, or the percentage of missing cells exceeds 20, or the
  percentage of duplicate rows exceeds 50; otherwise \<^verbatim>\<open>WARNING\<close> exactly when an issue has
  severity MEDIUM or the missing percentage exceeds 5; otherwise \<^verbatim>\<open>READY\<close>. The reason
  follows the priority HIGH issues, missing percentage, duplicate percentage, then MEDIUM
  issues, missing percentage. One HIGH issue yields \<^verbatim>\<open>NOT_READY\<close> whatever the statistics.
\<close>

theorem calculate_status_rules:
  "\<exists>s mp dp.
     calculate_status df issues metadata = Inr s
     \<and> missing_percentage df = Inr mp
     \<and> mp = (if total_cells df > 0
             then of_nat (missing_count df) / of_nat (total_cells df) * 100 else 0)
     \<and> duplicate_percentage df = Inr dp
     \<and> dp = (if len df > 0
             then of_nat (mask_sum (duplicated df)) / of_nat (len df) * 100 else 0)
     \<and> (status s = NOT_READY \<longleftrightarrow>
          (\<exists>i\<in>set issues. severity i = HIGH) \<or> mp > 20 \<or> dp > 50)
     \<and> (status s = WARNING \<longleftrightarrow>
          \<not> ((\<exists>i\<in>set issues. severity i = HIGH) \<or> mp > 20 \<or> dp > 50)
          \<and> ((\<exists>i\<in>set issues. severity i = MEDIUM) \<or> mp > 5))
     \<and> (status s = READY \<longleftrightarrow>
          \<not> ((\<exists>i\<in>set issues. severity i = HIGH) \<or> mp > 20 \<or> dp > 50)
          \<and> \<not> ((\<exists>i\<in>set issues. severity i = MEDIUM) \<or> mp > 5))
     \<and> status_reason s =
          (if \<exists>i\<in>set issues. severity i = HIGH
             then High_severity_issues (count_severity HIGH issues)
           else if mp > 20 then Missing_above_20 mp
           else if dp > 50 then Duplicates_above_50 dp
           else if \<exists>i\<in>set issues. severity i = MEDIUM
             then Medium_severity_issues (count_severity MEDIUM issues)
           else if mp > 5 then Missing_above_5 mp
           else Quality_good)
     \<and> ((\<exists>i\<in>set issues. severity i = HIGH) \<longrightarrow> status s = NOT_READY)"
proof -
  obtain mp where mp: "missing_percentage df = Inr mp"
    "mp = (if total_cells df > 0
             then of_nat (missing_count df) / of_nat (total_cells df) * 100 else 0)"
    using missing_percentage_eq by blast
  obtain dp where dp: "duplicate_percentage df = Inr dp"
    "dp = (if len df > 0
             then of_nat (mask_sum (duplicated df)) / of_nat (len df) * 100 else 0)"
    using duplicate_percentage_eq by blast
  note eq = calculate_status_eq [OF mp(1) dp(1), of issues metadata]
  show ?thesis
    apply (rule exI, rule exI [of _ mp], rule exI [of _ dp])
    apply (intro conjI)
             apply (rule eq)
            apply (rule mp(1))
           apply (rule mp(2))
          apply (rule dp(1))
         apply (rule dp(2))
        apply simp_all
    done
qed

theorem calculate_status_rules_witness:
  "\<exists>s. calculate_status
          \<lparr>index = [0, 1], cols = [(''x'', \<lparr>dtype = Int64, vals = [Integer 1, Integer 2]\<rparr>)]\<rparr>
          [\<lparr>row_number = None, column_name = Some ''x'', issue_type = INVALID_NUMERIC,
            severity = HIGH, description = Mixed_description ''x'' []\<rparr>] () = Inr s
       \<and> status s = NOT_READY \<and> status_reason s = High_severity_issues 1"
  using calculate_status_rules [of
          "\<lparr>index = [0, 1], cols = [(''x'', \<lparr>dtype = Int64, vals = [Integer 1, Integer 2]\<rparr>)]\<rparr>"
          "[\<lparr>row_number = None, column_name = Some ''x'', issue_type = INVALID_NUMERIC,
            severity = HIGH, description = Mixed_description ''x'' []\<rparr>]" "()"]
  by (auto simp: count_severity_def)

lemma duplicated_empty: "len df = 0 \<or> columns df = [] \<Longrightarrow> duplicated df = []"
  by (auto simp: duplicated_def empty_frame_def columns_def)

text \<open>
  C10. \<^verbatim>\<open>calculate_status\<close> returns a summary for every frame, never an error. With no
  cells the missing percentage is 0 and with no rows the duplicate percentage is 0, so no
  division by zero is reached; for a frame with no rows or no columns both percentages
  are 0 and the status depends on the issues alone.
\<close>

theorem calculate_status_zero_denominator:
  "(\<exists>s. calculate_status df issues metadata = Inr s)
   \<and> (total_cells df = 0 \<longrightarrow> missing_percentage df = Inr 0)
   \<and> (len df = 0 \<longrightarrow> duplicate_percentage df = Inr 0)
   \<and> (len df = 0 \<or> columns df = [] \<longrightarrow>
        missing_percentage df = Inr 0 \<and> duplicate_percentage df = Inr 0
        \<and> (\<exists>s. calculate_status df issues metadata = Inr s
              \<and> total_rows s = len df \<and> total_columns s = length (columns df)
              \<and> duplicate_row_count s = 0
              \<and> status s = (if \<exists>i\<in>set issues. severity i = HIGH then NOT_READY
                             else if \<exists>i\<in>set issues. severity i = MEDIUM then WARNING
                             else READY)))"
proof (intro conjI impI)
  show "\<exists>s. calculate_status df issues metadata = Inr s"
    by (simp add: calculate_status_def missing_percentage_eq duplicate_percentage_eq Let_def
        split: prod.split)
  show "missing_percentage df = Inr 0" if "total_cells df = 0"
    using that by (simp add: missing_percentage_def)
  show "duplicate_percentage df = Inr 0" if "len df = 0"
    using that by (simp add: duplicate_percentage_def)
next
  assume e: "len df = 0 \<or> columns df = []"
  then have tc: "total_cells df = 0" by (auto simp: total_cells_def)
  show mp: "missing_percentage df = Inr 0"
    using tc by (simp add: missing_percentage_def)
  have d: "duplicated df = []" using e by (rule duplicated_empty)
  show dp: "duplicate_percentage df = Inr 0"
    by (simp add: duplicate_percentage_def d mask_sum_def divide_def)
  show "\<exists>s. calculate_status df issues metadata = Inr s
              \<and> total_rows s = len df \<and> total_columns s = length (columns df)
              \<and> duplicate_row_count s = 0
              \<and> status s = (if \<exists>i\<in>set issues. severity i = HIGH then NOT_READY
                             else if \<exists>i\<in>set issues. severity i = MEDIUM then WARNING
                             else READY)"
    unfolding calculate_status_def mp dp
    by (simp add: Let_def d mask_sum_def count_severity_pos)
qed

theorem calculate_status_zero_denominator_witness:
  "(\<exists>s. calculate_status \<lparr>index = [], cols = [(''x'', \<lparr>dtype = Object, vals = []\<rparr>)]\<rparr> [] ()
          = Inr s \<and> status s = READY \<and> total_rows s = 0)
   \<and> (\<exists>s. calculate_status \<lparr>index = [0, 1, 2], cols = []\<rparr> [] () = Inr s \<and> status s = READY
          \<and> total_columns s = 0)
   \<and> missing_percentage \<lparr>index = [], cols = [(''x'', \<lparr>dtype = Object, vals = []\<rparr>)]\<rparr> = Inr 0
   \<and> duplicate_percentage \<lparr>index = [], cols = [(''x'', \<lparr>dtype = Object, vals = []\<rparr>)]\<rparr> = Inr 0
   \<and> missing_percentage \<lparr>index = [0, 1, 2], cols = []\<rparr> = Inr 0
   \<and> duplicate_percentage \<lparr>index = [0, 1, 2], cols = []\<rparr> = Inr 0"
  using calculate_status_zero_denominator
          [of "\<lparr>index = [], cols = [(''x'', \<lparr>dtype = Object, vals = []\<rparr>)]\<rparr>" "[]" "()"]
        calculate_status_zero_denominator [of "\<lparr>index = [0, 1, 2], cols = []\<rparr>" "[]" "()"]
  by (auto simp: len_def columns_def total_cells_def)

section \<open>Duplicate rows\<close>

lemma length_duplicated_rows: "length (duplicated_rows seen rs) = length rs"
  by (induction rs arbitrary: seen) auto

lemma duplicated_rows_nth:
  "i < length rs \<Longrightarrow> duplicated_rows seen rs ! i \<longleftrightarrow> rs ! i \<in> set seen \<union> set (take i rs)"
proof (induction rs arbitrary: seen i)
  case Nil
  then show ?case by simp
next
  case (Cons r rs)
  show ?case
  proof (cases i)
    case 0
    then show ?thesis by simp
  next
    case (Suc k)
    with Cons.prems have "k < length rs" by simp
    from Cons.IH [OF this, of "seen @ [r]"] show ?thesis
      by (auto simp: Suc)
  qed
qed

lemma length_rows: "length (rows df) = len df"
  by (simp add: rows_def)

lemma duplicated_first:
  assumes "\<not> empty_frame df" and "i < len df"
  shows "duplicated df ! i \<longleftrightarrow> (\<exists>j<i. rows df ! j = rows df ! i)"
proof -
  have "duplicated df ! i \<longleftrightarrow> rows df ! i \<in> set (take i (rows df))"
    using assms by (simp add: duplicated_def duplicated_rows_nth length_rows)
  also have "\<dots> \<longleftrightarrow> (\<exists>j<i. rows df ! j = rows df ! i)"
    using assms(2) by (auto simp: in_set_conv_nth length_rows)
  finally show ?thesis .
qed

lemma duplicates_nonempty: "0 < mask_sum (duplicated df) \<Longrightarrow> 0 < len df"
  by (auto simp: duplicated_def mask_sum_def empty_frame_def split: if_splits)

lemma check_duplicates_eq:
  "check_duplicates df =
     Inr (if 0 < mask_sum (duplicated df)
          then [\<lparr>row_number = None, column_name = None, issue_type = DUPLICATE_ROW,
                 severity =
                   duplicate_severity (of_nat (mask_sum (duplicated df)) / of_nat (len df) * 100),
                 description =
                   Duplicate_description (mask_sum (duplicated df))
                     (of_nat (mask_sum (duplicated df)) / of_nat (len df) * 100)
                     (take 20 (select (duplicated df) (index df)))\<rparr>]
          else [])"
proof (cases "0 < mask_sum (duplicated df)")
  case True
  then have "len df \<noteq> 0" using duplicates_nonempty [of df] by simp
  then show ?thesis using True by (simp add: check_duplicates_def divide_def Let_def)
next
  case False
  then show ?thesis by (simp add: check_duplicates_def Let_def)
qed

text \<open>
  C8. For a frame of 10 rows of which exactly 2 are marked as duplicates of an earlier
  row, \<^verbatim>\<open>check_duplicates\<close> returns one \<^verbatim>\<open>DUPLICATE_ROW\<close> issue with count 2, percentage
  20 and severity MEDIUM. Whenever a row is marked, the one issue has severity HIGH when
  the percentage exceeds 50, MEDIUM when it exceeds 10 and LOW otherwise; with no marked
  row there is no issue. A row is marked exactly when an earlier row equals it, so the
  first of equal rows is kept.
\<close>

theorem check_duplicates_two_of_ten:
  "(len df = 10 \<and> mask_sum (duplicated df) = 2 \<longrightarrow>
      check_duplicates df =
        Inr [\<lparr>row_number = None, column_name = None, issue_type = DUPLICATE_ROW,
              severity = MEDIUM,
              description =
                Duplicate_description 2 20 (take 20 (select (duplicated df) (index df)))\<rparr>])
   \<and> (0 < mask_sum (duplicated df) \<longrightarrow>
        (\<exists>i. check_duplicates df = Inr [i] \<and> issue_type i = DUPLICATE_ROW
           \<and> severity i =
               (if 50 * len df < 100 * mask_sum (duplicated df) then HIGH
                else if 10 * len df < 100 * mask_sum (duplicated df) then MEDIUM
                else LOW)))
   \<and> (mask_sum (duplicated df) = 0 \<longrightarrow> check_duplicates df = Inr [])
   \<and> (\<not> empty_frame df \<longrightarrow>
        (\<forall>i<len df. duplicated df ! i \<longleftrightarrow> (\<exists>j<i. rows df ! j = rows df ! i)))"
proof (intro conjI impI allI)
  assume a: "len df = 10 \<and> mask_sum (duplicated df) = 2"
  then show "check_duplicates df =
        Inr [\<lparr>row_number = None, column_name = None, issue_type = DUPLICATE_ROW,
              severity = MEDIUM,
              description =
                Duplicate_description 2 20 (take 20 (select (duplicated df) (index df)))\<rparr>]"
    by (simp add: check_duplicates_eq duplicate_severity_def)
next
  assume p: "0 < mask_sum (duplicated df)"
  define k where "k = mask_sum (duplicated df)"
  define n where "n = len df"
  have n: "0 < n" using p duplicates_nonempty [of df] by (simp add: n_def)
  have hi: "(50::rat) < of_nat k / of_nat n * 100 \<longleftrightarrow> 50 * n < 100 * k"
  proof -
    have "(50::rat) < of_nat k / of_nat n * 100 \<longleftrightarrow> (50::rat) * of_nat n < of_nat k * 100"
      using n by (simp add: pos_less_divide_eq)
    also have "\<dots> \<longleftrightarrow> (of_nat (50 * n) :: rat) < of_nat (100 * k)"
      by (simp add: mult.commute)
    also have "\<dots> \<longleftrightarrow> 50 * n < 100 * k" by (simp only: of_nat_less_iff)
    finally show ?thesis .
  qed
  have me: "(10::rat) < of_nat k / of_nat n * 100 \<longleftrightarrow> 10 * n < 100 * k"
  proof -
    have "(10::rat) < of_nat k / of_nat n * 100 \<longleftrightarrow> (10::rat) * of_nat n < of_nat k * 100"
      using n by (simp add: pos_less_divide_eq)
    also have "\<dots> \<longleftrightarrow> (of_nat (10 * n) :: rat) < of_nat (100 * k)"
      by (simp add: mult.commute)
    also have "\<dots> \<longleftrightarrow> 10 * n < 100 * k" by (simp only: of_nat_less_iff)
    finally show ?thesis .
  qed
  show "\<exists>i. check_duplicates df = Inr [i] \<and> issue_type i = DUPLICATE_ROW
           \<and> severity i =
               (if 50 * len df < 100 * mask_sum (duplicated df) then HIGH
                else if 10 * len df < 100 * mask_sum (duplicated df) then MEDIUM
                else LOW)"
    using p hi me unfolding check_duplicates_eq duplicate_severity_def k_def n_def
    by simp
next
  assume "mask_sum (duplicated df) = 0"
  then show "check_duplicates df = Inr []" by (simp add: check_duplicates_eq)
next
  fix i
  assume "\<not> empty_frame df" and "i < len df"
  then show "duplicated df ! i \<longleftrightarrow> (\<exists>j<i. rows df ! j = rows df ! i)"
    by (rule duplicated_first)
qed

lemma ten_rows_duplicated:
  "duplicated \<lparr>index = [0, 1, 2, 3, 4, 5, 6, 7, 8, 9],
       cols = [(''id'', \<lparr>dtype = Int64,
                 vals = map Integer [1, 2, 3, 4, 5, 6, 7, 8, 1, 2]\<rparr>),
               (''name'', \<lparr>dtype = Object,
                 vals = map Text [''a'', ''b'', ''c'', ''d'', ''e'', ''f'', ''g'', ''h'', ''a'', ''b'']\<rparr>)]\<rparr>
   = [False, False, False, False, False, False, False, False, True, True]"
  by code_simp

theorem check_duplicates_two_of_ten_witness:
  "check_duplicates
     \<lparr>index = [0, 1, 2, 3, 4, 5, 6, 7, 8, 9],
       cols = [(''id'', \<lparr>dtype = Int64,
                 vals = map Integer [1, 2, 3, 4, 5, 6, 7, 8, 1, 2]\<rparr>),
               (''name'', \<lparr>dtype = Object,
                 vals = map Text [''a'', ''b'', ''c'', ''d'', ''e'', ''f'', ''g'', ''h'', ''a'', ''b'']\<rparr>)]\<rparr>
   = Inr [\<lparr>row_number = None, column_name = None, issue_type = DUPLICATE_ROW,
           severity = MEDIUM, description = Duplicate_description 2 20 [8, 9]\<rparr>]"
  using check_duplicates_two_of_ten [of
     "\<lparr>index = [0, 1, 2, 3, 4, 5, 6, 7, 8, 9],
       cols = [(''id'', \<lparr>dtype = Int64,
                 vals = map Integer [1, 2, 3, 4, 5, 6, 7, 8, 1, 2]\<rparr>),
               (''name'', \<lparr>dtype = Object,
                 vals = map Text [''a'', ''b'', ''c'', ''d'', ''e'', ''f'', ''g'', ''h'', ''a'', ''b'']\<rparr>)]\<rparr>"]
  unfolding ten_rows_duplicated
  by (simp add: len_def mask_sum_def select_def)

section \<open>Mixed types\<close>

lemma mixed_three_kinds:
  assumes "dropna (vals c) = [Integer 1, Float (Fin (3 / 2)), Text ''two'']"
  shows "mixed_type_issues col c =
     [\<lparr>row_number = None, column_name = Some col, issue_type = MIXED_TYPE, severity = MEDIUM,
       description = Mixed_description col [(''int'', 1), (''float'', 1), (''str'', 1)]\<rparr>]"
  unfolding mixed_type_issues_def assms by (simp add: numeric_types_def)

lemma mixed_int_float:
  assumes "dropna (vals c) = [Integer 1, Float (Fin (3 / 2)), Integer 2]"
  shows "mixed_type_issues col c = []"
  unfolding mixed_type_issues_def assms by (simp add: numeric_types_def)

lemma mixed_type_issues_column:
  "i \<in> set (mixed_type_issues col c) \<Longrightarrow> column_name i = Some col"
  by (auto simp: mixed_type_issues_def Let_def split: if_splits)

lemma filter_mixed_same:
  "filter (\<lambda>i. column_name i = Some col) (mixed_type_issues col c) = mixed_type_issues col c"
  by (rule filter_True) (simp add: mixed_type_issues_column)

lemma filter_mixed_other:
  "name \<noteq> col \<Longrightarrow> filter (\<lambda>i. column_name i = Some col) (mixed_type_issues name c) = []"
  by (auto simp: filter_empty_conv dest: mixed_type_issues_column)

lemma check_mixed_types_column:
  "distinct (map fst cs) \<Longrightarrow> (col, c) \<in> set cs \<Longrightarrow>
   filter (\<lambda>i. column_name i = Some col) (concat (map (\<lambda>(name, c). mixed_type_issues name c) cs))
     = mixed_type_issues col c"
proof (induction cs)
  case Nil
  then show ?case by simp
next
  case (Cons a cs)
  obtain name c' where a: "a = (name, c')" by (cases a)
  show ?case
  proof (cases "name = col")
    case True
    with Cons.prems a have c: "c' = c" and notin: "col \<notin> fst ` set cs"
      by (auto simp: image_iff)
    have "filter (\<lambda>i. column_name i = Some col)
            (concat (map (\<lambda>(name, c). mixed_type_issues name c) cs)) = []"
      using notin
      by (auto simp: filter_empty_conv image_iff dest!: mixed_type_issues_column)
    then show ?thesis using True a c by (simp add: filter_mixed_same)
  next
    case False
    with Cons.prems a have "(col, c) \<in> set cs" "distinct (map fst cs)" by auto
    from Cons.IH [OF this(2,1)] show ?thesis using False a by (simp add: filter_mixed_other)
  qed
qed

text \<open>
  C4. For a column whose values that are not missing are \<^verbatim>\<open>[1, 1.5, "two"]\<close>,
  \<^verbatim>\<open>check_mixed_types\<close> emits exactly one issue for that column, of type
  \<^verbatim>\<open>MIXED_TYPE\<close> and severity MEDIUM; for a column whose values are \<^verbatim>\<open>[1, 1.5, 2]\<close>
  (an integer, a float, an integer) it emits none.
\<close>

theorem check_mixed_types_examples:
  "(distinct (columns df) \<and> (col, c) \<in> set (cols df)
      \<and> dropna (vals c) = [Integer 1, Float (Fin (3 / 2)), Text ''two''] \<longrightarrow>
      map (\<lambda>i. (column_name i, issue_type i, severity i))
        (filter (\<lambda>i. column_name i = Some col) (check_mixed_types df))
        = [(Some col, MIXED_TYPE, MEDIUM)])
   \<and> (distinct (columns df) \<and> (col, c) \<in> set (cols df)
      \<and> dropna (vals c) = [Integer 1, Float (Fin (3 / 2)), Integer 2] \<longrightarrow>
      filter (\<lambda>i. column_name i = Some col) (check_mixed_types df) = [])"
proof (intro conjI impI; elim conjE)
  assume d: "distinct (columns df)" and m: "(col, c) \<in> set (cols df)"
  have f: "filter (\<lambda>i. column_name i = Some col) (check_mixed_types df) = mixed_type_issues col c"
    using d m by (simp add: check_mixed_types_def columns_def check_mixed_types_column)
  show "map (\<lambda>i. (column_name i, issue_type i, severity i))
        (filter (\<lambda>i. column_name i = Some col) (check_mixed_types df))
        = [(Some col, MIXED_TYPE, MEDIUM)]"
    if "dropna (vals c) = [Integer 1, Float (Fin (3 / 2)), Text ''two'']"
    by (simp add: f mixed_three_kinds [OF that])
  show "filter (\<lambda>i. column_name i = Some col) (check_mixed_types df) = []"
    if "dropna (vals c) = [Integer 1, Float (Fin (3 / 2)), Integer 2]"
    by (simp add: f mixed_int_float [OF that])
qed

theorem check_mixed_types_examples_witness:
  "map (\<lambda>i. (column_name i, issue_type i, severity i))
     (check_mixed_types
        \<lparr>index = [0, 1, 2, 3],
         cols = [(''v'', \<lparr>dtype = Object,
                   vals = [Integer 1, Null, Float (Fin (3 / 2)), Text ''two'']\<rparr>)]\<rparr>)
     = [(Some ''v'', MIXED_TYPE, MEDIUM)]
   \<and> check_mixed_types
        \<lparr>index = [0, 1, 2, 3],
         cols = [(''v'', \<lparr>dtype = Object,
                   vals = [Integer 1, Null, Float (Fin (3 / 2)), Integer 2]\<rparr>)]\<rparr> = []"
proof -
  let ?a = "\<lparr>dtype = Object, vals = [Integer 1, Null, Float (Fin (3 / 2)), Text ''two'']\<rparr>"
  let ?b = "\<lparr>dtype = Object, vals = [Integer 1, Null, Float (Fin (3 / 2)), Integer 2]\<rparr>"
  let ?fa = "\<lparr>index = [0, 1, 2, 3], cols = [(''v'', ?a)]\<rparr>"
  let ?fb = "\<lparr>index = [0, 1, 2, 3], cols = [(''v'', ?b)]\<rparr>"
  have ia: "\<And>i. i \<in> set (check_mixed_types ?fa) \<Longrightarrow> column_name i = Some ''v''"
    by (auto simp: check_mixed_types_def dest: mixed_type_issues_column)
  have ib: "\<And>i. i \<in> set (check_mixed_types ?fb) \<Longrightarrow> column_name i = Some ''v''"
    by (auto simp: check_mixed_types_def dest: mixed_type_issues_column)
  have fa: "filter (\<lambda>i. column_name i = Some ''v'') (check_mixed_types ?fa) = check_mixed_types ?fa"
    by (rule filter_True) (simp add: ia)
  have fb: "filter (\<lambda>i. column_name i = Some ''v'') (check_mixed_types ?fb) = check_mixed_types ?fb"
    by (rule filter_True) (simp add: ib)
  from check_mixed_types_examples [of ?fa "''v''" ?a]
       check_mixed_types_examples [of ?fb "''v''" ?b]
  show ?thesis unfolding fa fb
    by (simp add: columns_def dropna_def notna_def)
qed

section \<open>Reading and writing columns\<close>

lemma getitem_columns: "getitem df col = Inr c \<Longrightarrow> col \<in> set (columns df)"
  by (auto simp: getitem_def columns_def split: option.splits dest: map_of_SomeD intro: rev_image_eqI)

lemma getitem_total: "col \<in> set (columns df) \<Longrightarrow> \<exists>c. getitem df col = Inr c"
  by (cases "map_of (cols df) col") (auto simp: getitem_def columns_def map_of_eq_None_iff)

lemma columns_setitem [simp]:
  "col \<in> set (columns df) \<Longrightarrow> columns (setitem df col c) = columns df"
  by (auto simp: setitem_def columns_def split_beta)

lemma index_setitem [simp]: "index (setitem df col c) = index df"
  by (simp add: setitem_def)

lemma len_setitem [simp]: "len (setitem df col c) = len df"
  by (simp add: len_def)

lemma setitem_setitem:
  assumes "col \<in> set (columns df)"
  shows "setitem (setitem df col a) col b = setitem df col b"
proof -
  have "col \<in> set (columns (setitem df col a))" using assms by simp
  then have "setitem (setitem df col a) col b =
     (setitem df col a)\<lparr>cols := map (\<lambda>(name, old). if name = col then (name, b) else (name, old))
                                   (cols (setitem df col a))\<rparr>"
    by (simp add: setitem_def [of "setitem df col a"])
  also have "\<dots> = setitem df col b"
    using assms by (simp add: setitem_def split_beta o_def)
  finally show ?thesis .
qed

lemma map_update_same:
  "distinct (map fst cs) \<Longrightarrow> map_of cs col = Some c \<Longrightarrow>
   map (\<lambda>(name, old). if name = col then (name, c) else (name, old)) cs = cs"
proof (induction cs)
  case Nil
  then show ?case by simp
next
  case (Cons a cs)
  obtain n x where a: "a = (n, x)" by (cases a)
  show ?case
  proof (cases "n = col")
    case True
    with Cons.prems a have "x = c" "col \<notin> fst ` set cs" by auto
    then have "map (\<lambda>(name, old). if name = col then (name, c) else (name, old)) cs = cs"
      by (intro map_idI) (auto simp: image_iff)
    then show ?thesis using True a \<open>x = c\<close> by simp
  next
    case False
    then show ?thesis using Cons a by simp
  qed
qed

lemma setitem_same:
  "distinct (columns df) \<Longrightarrow> getitem df col = Inr c \<Longrightarrow> setitem df col c = df"
  by (frule getitem_columns)
     (auto simp: setitem_def getitem_def columns_def map_update_same split: option.splits)

section \<open>Date conversion\<close>

lemma length_zero_pad: "w \<le> length (zero_pad w s)"
  by (simp add: zero_pad_def)

lemma length_strftime: "10 \<le> length (strftime d)"
proof -
  have "4 \<le> length (zero_pad 4 (str_nat (year d)))" "2 \<le> length (zero_pad 2 (str_nat (month d)))"
    "2 \<le> length (zero_pad 2 (str_nat (day d)))" by (rule length_zero_pad)+
  then show ?thesis by (simp add: strftime_def)
qed

lemma strftime_not_NaT [simp]: "strftime d \<noteq> ''NaT''"
  using length_strftime [of d] by auto

lemma convert_to_date_parsed:
  assumes g: "getitem df col = Inr c" and p: "to_datetime L (vals c) = Some parsed"
    and pos: "filter (\<lambda>p. p \<noteq> None) parsed \<noteq> []"
  shows "convert_to_date L df col =
     Inr (setitem df col
            \<lparr>dtype = Object,
             vals = map (\<lambda>p. case p of None \<Rightarrow> Null | Some d \<Rightarrow> Text (strftime d)) parsed\<rparr>,
          [Convert_dates col (length (filter (\<lambda>p. p \<noteq> None) parsed))
             (int (notna_sum (vals c)) - int (length (filter (\<lambda>p. p \<noteq> None) parsed)))])"
proof -
  have m: "(\<lambda>c. if c = Text ''NaT'' then Null else c) \<circ> case_option Null (\<lambda>d. Text (strftime d))
           = case_option Null (\<lambda>d. Text (strftime d))"
    by (auto simp: fun_eq_iff split: option.splits)
  show ?thesis
    using pos getitem_columns [OF g]
    by (simp add: convert_to_date_def g p Let_def m setitem_setitem)
qed

lemma convert_to_date_nothing_parsed:
  assumes g: "getitem df col = Inr c" and p: "to_datetime L (vals c) = Some parsed"
    and none: "filter (\<lambda>p. p \<noteq> None) parsed = []"
  shows "convert_to_date L df col =
     Inr (setitem df col \<lparr>dtype = Datetime64, vals = map (\<lambda>p. Null) parsed\<rparr>, [])"
proof -
  have "\<forall>x\<in>set parsed. x = None" using none by (simp add: filter_empty_conv)
  then have e: "map (case_option Null Timestamp) parsed = map (\<lambda>p. Null) parsed"
    by (intro map_cong [OF refl]) auto
  show ?thesis using none by (simp add: convert_to_date_def g p Let_def e)
qed

lemma convert_to_date_raised:
  assumes d: "distinct (columns df)" and g: "getitem df col = Inr c"
    and p: "to_datetime L (vals c) = None"
  shows "convert_to_date L df col = Inr (df, [])"
  by (simp add: convert_to_date_def g p setitem_same [OF d g])

lemma three_dates_match:
  "map matches_date_pattern [''2024-01-05'', ''2024-13-40'', ''01/05/2024''] = [True, True, True]"
  by code_simp

text \<open>
  What \<^verbatim>\<open>convert_to_date\<close> does with the column once the parser has read the first and
  the third value: the counts it logs are those of the parser.
\<close>

lemma convert_to_date_two_read:
  "getitem df col = Inr c \<and> dtype c = Object
   \<and> vals c = [Text ''2024-01-05'', Text ''2024-13-40'', Text ''01/05/2024'']
   \<and> to_datetime L (vals c) = Some [Some d1, None, Some d3] \<longrightarrow>
   is_date_column L c
   \<and> convert_to_date L df col =
       Inr (setitem df col \<lparr>dtype = Object, vals = [Text (strftime d1), Null, Text (strftime d3)]\<rparr>,
            [Convert_dates col 2 1])
   \<and> process_column L df col = convert_to_date L df col"
proof (intro impI; elim conjE)
  assume g: "getitem df col = Inr c" and d: "dtype c = Object"
    and v: "vals c = [Text ''2024-01-05'', Text ''2024-13-40'', Text ''01/05/2024'']"
    and p: "to_datetime L (vals c) = Some [Some d1, None, Some d3]"
  have s: "sample_of c = vals c" by (simp add: v sample_of_def dropna_def notna_def)
  have dc: "is_date_column L c"
    unfolding is_date_column_iff s v using three_dates_match by simp
  have cd: "convert_to_date L df col =
       Inr (setitem df col \<lparr>dtype = Object, vals = [Text (strftime d1), Null, Text (strftime d3)]\<rparr>,
            [Convert_dates col 2 1])"
    using convert_to_date_parsed [OF g p] by (simp add: v notna_sum_def notna_def)
  have pc: "process_column L df col = convert_to_date L df col"
    by (simp add: process_column_def g d dc is_numeric_dtype_def is_datetime64_any_dtype_def)
  show "is_date_column L c
   \<and> convert_to_date L df col =
       Inr (setitem df col \<lparr>dtype = Object, vals = [Text (strftime d1), Null, Text (strftime d3)]\<rparr>,
            [Convert_dates col 2 1])
   \<and> process_column L df col = convert_to_date L df col"
    using dc cd pc by simp
qed

text \<open>
  C5. The column \<^verbatim>\<open>["2024-01-05", "2024-13-40", "01/05/2024"]\<close> is a date candidate: all
  three values match a date pattern. \<^verbatim>\<open>pd.to_datetime\<close> takes the format
  \<^verbatim>\<open>YYYY-MM-DD\<close> from the first value; the second value is no date and the third is in
  another format, so both are \<^verbatim>\<open>NaT\<close>. \<^verbatim>\<open>convert_to_date\<close> appends the single entry
  \<^verbatim>\<open>convert_dates\<close> with \<^verbatim>\<open>converted_count = 1\<close> and \<^verbatim>\<open>failed_count = 2\<close>, and the second
  and the third cell are missing in the frame it returns. The third value is not read,
  against the comment of the \<^verbatim>\<open>try\<close> block (parse dates with multiple formats).
\<close>

theorem convert_to_date_mixed_formats:
  "is_date_column simple_pandas
     \<lparr>dtype = Object, vals = [Text ''2024-01-05'', Text ''2024-13-40'', Text ''01/05/2024'']\<rparr>
   \<and> to_datetime simple_pandas [Text ''2024-01-05'', Text ''2024-13-40'', Text ''01/05/2024'']
       = Some [Some (Date 2024 1 5), None, None]
   \<and> process_column simple_pandas
        \<lparr>index = [0, 1, 2],
         cols = [(''when'', \<lparr>dtype = Object,
                   vals = [Text ''2024-01-05'', Text ''2024-13-40'', Text ''01/05/2024'']\<rparr>)]\<rparr> ''when''
       = Inr (\<lparr>index = [0, 1, 2],
               cols = [(''when'', \<lparr>dtype = Object,
                         vals = [Text ''2024-01-05'', Null, Null]\<rparr>)]\<rparr>,
              [Convert_dates ''when'' 1 2])"
  by code_simp

section \<open>The cleaner returns\<close>

lemma trim_loop_total:
  "set names \<subseteq> set (columns df) \<Longrightarrow>
   \<exists>df' n'. trim_loop L names df n = Inr (df', n') \<and> columns df' = columns df"
proof (induction names arbitrary: df n)
  case Nil
  then show ?case by simp
next
  case (Cons col names)
  then have c: "col \<in> set (columns df)" by simp
  then obtain series where g: "getitem df col = Inr series" using getitem_total by blast
  let ?df = "setitem df col
      (series\<lparr>vals := map (\<lambda>c. if notna c then Text (py_strip (py_str L c)) else c) (vals series)\<rparr>)"
  have "set names \<subseteq> set (columns ?df)" using Cons.prems c by simp
  from Cons.IH [OF this] c show ?case by (simp add: g Let_def)
qed

lemma clean_numeric_column_total:
  "col \<in> set (columns df) \<Longrightarrow>
   \<exists>df' l. clean_numeric_column df col = Inr (df', l) \<and> columns df' = columns df"
  by (frule getitem_total) (auto simp: clean_numeric_column_def Let_def)

lemma normalize_text_column_total:
  "col \<in> set (columns df) \<Longrightarrow>
   \<exists>df' l. normalize_text_column L df col = Inr (df', l) \<and> columns df' = columns df"
  by (frule getitem_total) (auto simp: normalize_text_column_def Let_def)

lemma convert_to_numeric_total:
  "col \<in> set (columns df) \<Longrightarrow>
   \<exists>df' l. convert_to_numeric L df col = Inr (df', l) \<and> columns df' = columns df"
  by (frule getitem_total) (auto simp: convert_to_numeric_def Let_def)

lemma convert_to_date_total:
  "col \<in> set (columns df) \<Longrightarrow>
   \<exists>df' l. convert_to_date L df col = Inr (df', l) \<and> columns df' = columns df"
  by (frule getitem_total) (auto simp: convert_to_date_def Let_def split: option.splits)

lemma process_column_total:
  assumes "col \<in> set (columns df)"
  shows "\<exists>df' l. process_column L df col = Inr (df', l) \<and> columns df' = columns df"
proof -
  obtain series where g: "getitem df col = Inr series" using assms getitem_total by blast
  show ?thesis
    using clean_numeric_column_total [OF assms] normalize_text_column_total [OF assms, of L]
      convert_to_numeric_total [OF assms, of L] convert_to_date_total [OF assms, of L]
    by (simp add: process_column_def g)
qed

lemma process_loop_total:
  "set names \<subseteq> set (columns df) \<Longrightarrow>
   \<exists>df' l. process_loop L names df acc = Inr (df', l) \<and> columns df' = columns df"
proof (induction names arbitrary: df acc)
  case Nil
  then show ?case by simp
next
  case (Cons col names)
  then have "col \<in> set (columns df)" by simp
  from process_column_total [OF this, of L] obtain df1 l1 where
    p: "process_column L df col = Inr (df1, l1)" and c: "columns df1 = columns df" by blast
  have "set names \<subseteq> set (columns df1)" using Cons.prems c by simp
  from Cons.IH [OF this, of "acc @ l1"] show ?case by (simp add: p c)
qed

lemma object_columns_subset: "set (object_columns df) \<subseteq> set (columns df)"
  by (auto simp: object_columns_def columns_def)

lemma trim_whitespace_total:
  "\<exists>df' l. trim_whitespace L df = Inr (df', l) \<and> columns df' = columns df"
  using trim_loop_total [OF object_columns_subset, where L = L and n = 0 and df = df]
  by (auto simp: trim_whitespace_def)

lemma clean_dataframe_total: "\<exists>df' l. clean_dataframe L df = Inr (df', l)"
proof -
  obtain d1 l1 where r: "remove_empty_rows df = (d1, l1)" by (cases "remove_empty_rows df")
  obtain d2 l2 where c: "remove_empty_columns d1 = (d2, l2)" by (cases "remove_empty_columns d1")
  obtain d3 l3 where t: "trim_whitespace L d2 = Inr (d3, l3)"
    using trim_whitespace_total by blast
  from process_loop_total [OF subset_refl, where L = L and df = d3 and acc = "l1 @ l2 @ l3"]
  show ?thesis by (auto simp: clean_dataframe_def r c t)
qed

lemma clean_dataframe_obj_eq:
  assumes "arg < length s" and "clean_dataframe L (s ! arg) = Inr (out, l)"
  shows "clean_dataframe_obj L s arg =
     Inr (s @ [s ! arg, fst (remove_empty_rows (s ! arg)), out], length s + 2, l)"
proof -
  obtain d1 l1 where r: "remove_empty_rows (s ! arg) = (d1, l1)"
    by (cases "remove_empty_rows (s ! arg)")
  obtain d2 l2 where c: "remove_empty_columns d1 = (d2, l2)" by (cases "remove_empty_columns d1")
  obtain d3 l3 where t: "trim_whitespace L d2 = Inr (d3, l3)"
    using trim_whitespace_total by blast
  have p: "process_loop L (columns d3) d3 (l1 @ l2 @ l3) = Inr (out, l)"
    using assms(2) by (simp add: clean_dataframe_def r c t)
  show ?thesis
    using assms(1)
    by (simp add: clean_dataframe_obj_def alloc_def r c t p nth_append list_update_append)
qed

section \<open>The argument of the cleaner\<close>

text \<open>
  C9. \<^verbatim>\<open>clean_dataframe\<close> on a DataFrame object of the store returns a new object: the
  object passed in, and every other object that existed before the call, holds the same
  frame afterwards, and the returned object holds the cleaned frame.
\<close>

theorem clean_dataframe_leaves_argument:
  "arg < length s \<longrightarrow>
     (\<exists>s' out l. clean_dataframe_obj L s arg = Inr (s', out, l)
        \<and> s' ! arg = s ! arg
        \<and> take (length s) s' = s
        \<and> length s \<le> out \<and> out < length s'
        \<and> clean_dataframe L (s ! arg) = Inr (s' ! out, l))"
proof
  assume a: "arg < length s"
  obtain out l where c: "clean_dataframe L (s ! arg) = Inr (out, l)"
    using clean_dataframe_total by blast
  note e = clean_dataframe_obj_eq [OF a c]
  show "\<exists>s' out l. clean_dataframe_obj L s arg = Inr (s', out, l)
        \<and> s' ! arg = s ! arg
        \<and> take (length s) s' = s
        \<and> length s \<le> out \<and> out < length s'
        \<and> clean_dataframe L (s ! arg) = Inr (s' ! out, l)"
    unfolding e using a c by (simp add: nth_append)
qed

lemma small_frame_cleaned:
  "clean_dataframe simple_pandas
     \<lparr>index = [0, 1],
      cols = [(''city'', \<lparr>dtype = Object, vals = [Text '' Oslo '', Null]\<rparr>),
              (''n'', \<lparr>dtype = Float64, vals = [Float PInf, Null]\<rparr>)]\<rparr>
   = Inr (\<lparr>index = [0],
           cols = [(''city'', \<lparr>dtype = Object, vals = [Text ''oslo'']\<rparr>),
                   (''n'', \<lparr>dtype = Float64, vals = [Null]\<rparr>)]\<rparr>,
          [Remove_empty_rows 1, Trim_whitespace 1, Normalize_text ''city'' 1,
           Remove_infinity ''n'' 1])"
  by code_simp

theorem clean_dataframe_leaves_argument_witness:
  "\<exists>s' out l.
     clean_dataframe_obj simple_pandas
       [\<lparr>index = [0, 1],
         cols = [(''city'', \<lparr>dtype = Object, vals = [Text '' Oslo '', Null]\<rparr>),
                 (''n'', \<lparr>dtype = Float64, vals = [Float PInf, Null]\<rparr>)]\<rparr>] 0
       = Inr (s', out, l)
     \<and> s' ! 0 = \<lparr>index = [0, 1],
         cols = [(''city'', \<lparr>dtype = Object, vals = [Text '' Oslo '', Null]\<rparr>),
                 (''n'', \<lparr>dtype = Float64, vals = [Float PInf, Null]\<rparr>)]\<rparr>
     \<and> s' ! out = \<lparr>index = [0],
           cols = [(''city'', \<lparr>dtype = Object, vals = [Text ''oslo'']\<rparr>),
                   (''n'', \<lparr>dtype = Float64, vals = [Null]\<rparr>)]\<rparr>
     \<and> l = [Remove_empty_rows 1, Trim_whitespace 1, Normalize_text ''city'' 1,
           Remove_infinity ''n'' 1]"
proof -
  let ?f = "\<lparr>index = [0, 1],
         cols = [(''city'', \<lparr>dtype = Object, vals = [Text '' Oslo '', Null]\<rparr>),
                 (''n'', \<lparr>dtype = Float64, vals = [Float PInf, Null]\<rparr>)]\<rparr>"
  have "\<exists>s' out l. clean_dataframe_obj simple_pandas [?f] 0 = Inr (s', out, l)
        \<and> s' ! 0 = ?f \<and> clean_dataframe simple_pandas ?f = Inr (s' ! out, l)"
    using clean_dataframe_leaves_argument [of 0 "[?f]" simple_pandas]
    by (simp only: nth_Cons_0 list.size) auto
  then show ?thesis
    unfolding small_frame_cleaned by (simp only: sum.inject prod.inject) metis
qed

section \<open>The loops of the cleaner, column by column\<close>

lemma getitem_at:
  assumes "cols df = pre @ (col, c) # rest" and "col \<notin> fst ` set pre"
  shows "getitem df col = Inr c"
  using assms by (simp add: getitem_def map_of_append map_add_def map_of_eq_None_iff [THEN iffD2]
      split: option.splits)

lemma setitem_at:
  assumes "cols df = pre @ (col, c) # rest" and "distinct (columns df)"
  shows "setitem df col c' = df\<lparr>cols := pre @ (col, c') # rest\<rparr>"
proof -
  have n: "col \<notin> fst ` set pre" "col \<notin> fst ` set rest"
    using assms by (auto simp: columns_def)
  have "map (\<lambda>(name, old). if name = col then (name, c') else (name, old)) pre = pre"
    using n(1) by (intro map_idI) (auto simp: image_iff)
  moreover have "map (\<lambda>(name, old). if name = col then (name, c') else (name, old)) rest = rest"
    using n(2) by (intro map_idI) (auto simp: image_iff)
  moreover have "col \<in> set (columns df)" using assms(1) by (simp add: columns_def)
  ultimately show ?thesis using assms(1) by (simp add: setitem_def)
qed

lemma process_column_series:
  assumes d: "distinct (columns df)" and g: "getitem df col = Inr c"
  shows "process_column L df col =
           Inr (setitem df col (fst (process_series L col c)), snd (process_series L col c))"
proof -
  note same = setitem_same [OF d g]
  have in_cols: "col \<in> set (columns df)" using g by (rule getitem_columns)
  consider (isnum) "is_numeric_dtype c"
    | (isdt) "\<not> is_numeric_dtype c" "is_datetime64_any_dtype c"
    | (isdate) "\<not> is_numeric_dtype c" "\<not> is_datetime64_any_dtype c" "is_date_column L c"
    | (isnumc) "\<not> is_numeric_dtype c" "\<not> is_datetime64_any_dtype c" "\<not> is_date_column L c"
        "should_be_numeric L c"
    | (istext) "\<not> is_numeric_dtype c" "\<not> is_datetime64_any_dtype c" "\<not> is_date_column L c"
        "\<not> should_be_numeric L c"
    by blast
  then show ?thesis
  proof cases
    case isnum
    from isnum show ?thesis
      by (simp add: process_column_def process_series_def g clean_numeric_column_def
          infinity_series_def Let_def same)
  next
    case isdt
    from isdt show ?thesis by (simp add: process_column_def process_series_def g same)
  next
    case isdate
    have "convert_to_date L df col =
            Inr (setitem df col (fst (date_series L col c)), snd (date_series L col c))"
    proof (cases "to_datetime L (vals c)")
      case None
      then show ?thesis by (simp add: convert_to_date_raised [OF d g] date_series_def same)
    next
      case (Some parsed)
      show ?thesis
      proof (cases "filter (\<lambda>p. p \<noteq> None) parsed = []")
        case True
        then show ?thesis
          using convert_to_date_nothing_parsed [OF g Some True]
          by (simp add: date_series_def Some)
      next
        case False
        then show ?thesis
          using convert_to_date_parsed [OF g Some False]
          by (simp add: date_series_def Some)
      qed
    qed
    then show ?thesis using isdate by (simp add: process_column_def process_series_def g)
  next
    case isnumc
    from isnumc show ?thesis
      by (simp add: process_column_def process_series_def g convert_to_numeric_def
          numeric_series_def Let_def)
  next
    case istext
    have "normalize_text_column L df col =
            Inr (setitem df col (fst (text_series L col c)), snd (text_series L col c))"
    proof (cases "notna_sum (vals c) = 0")
      case True
      then have "filter (\<lambda>x. notna x \<and> py_str L x \<noteq> py_lower (py_str L x)) (vals c) = []"
        by (auto simp: notna_sum_def filter_empty_conv)
      then show ?thesis using True
        by (simp add: normalize_text_column_def g text_series_def same)
    next
      case False
      then show ?thesis
        by (simp add: normalize_text_column_def g text_series_def same Let_def)
    qed
    then show ?thesis using istext by (simp add: process_column_def process_series_def g)
  qed
qed

lemma process_loop_cols:
  assumes "cols df = pre @ rest" and "distinct (columns df)"
  shows "process_loop L (map fst rest) df acc =
     Inr (df\<lparr>cols := pre @ map (\<lambda>(n, c). (n, fst (process_series L n c))) rest\<rparr>,
          acc @ concat (map (\<lambda>(n, c). snd (process_series L n c)) rest))"
  using assms
proof (induction rest arbitrary: pre df acc)
  case Nil
  then show ?case by simp
next
  case (Cons a rest)
  obtain n c where a: "a = (n, c)" by (cases a)
  let ?c = "fst (process_series L n c)"
  let ?df = "df\<lparr>cols := pre @ (n, ?c) # rest\<rparr>"
  have cs: "cols df = pre @ (n, c) # rest" using Cons.prems(1) a by simp
  have "n \<notin> fst ` set pre" using Cons.prems(2) cs by (auto simp: columns_def)
  then have g: "getitem df n = Inr c" using cs by (intro getitem_at)
  have p: "process_column L df n = Inr (?df, snd (process_series L n c))"
    using process_column_series [OF Cons.prems(2) g, of L]
    by (simp add: setitem_at [OF cs Cons.prems(2)])
  have 1: "cols ?df = (pre @ [(n, ?c)]) @ rest" by simp
  have 2: "distinct (columns ?df)" using Cons.prems(2) cs by (simp add: columns_def)
  show ?case
    using Cons.IH [OF 1 2, of "acc @ snd (process_series L n c)"]
    by (simp add: a p)
qed

lemma trim_loop_cols:
  assumes "cols df = pre @ rest" and "distinct (columns df)"
  shows "trim_loop L (map fst (filter (\<lambda>(n, c). dtype c = Object) rest)) df k =
     Inr (df\<lparr>cols := pre @ map (\<lambda>(n, c). (n, trim_series L c)) rest\<rparr>,
          k + sum_list (map (\<lambda>(n, c). trim_changes L c) rest))"
  using assms
proof (induction rest arbitrary: pre df k)
  case Nil
  then show ?case by simp
next
  case (Cons a rest)
  obtain n c where a: "a = (n, c)" by (cases a)
  have cs: "cols df = pre @ (n, c) # rest" using Cons.prems(1) a by simp
  show ?case
  proof (cases "dtype c = Object")
    case True
    let ?c = "trim_series L c"
    let ?df = "df\<lparr>cols := pre @ (n, ?c) # rest\<rparr>"
    have "n \<notin> fst ` set pre" using Cons.prems(2) cs by (auto simp: columns_def)
    then have g: "getitem df n = Inr c" using cs by (intro getitem_at)
    have s: "setitem df n ?c = ?df" by (rule setitem_at [OF cs Cons.prems(2)])
    have 1: "cols ?df = (pre @ [(n, ?c)]) @ rest" by simp
    have 2: "distinct (columns ?df)" using Cons.prems(2) cs by (simp add: columns_def)
    show ?thesis
      using Cons.IH [OF 1 2, of "k + trim_changes L c"] True s
      by (simp add: a g Let_def trim_series_def trim_changes_def)
  next
    case False
    have 1: "cols df = (pre @ [(n, c)]) @ rest" using cs by simp
    show ?thesis
      using Cons.IH [OF 1 Cons.prems(2), of k] False
      by (simp add: a trim_series_def trim_changes_def)
  qed
qed

lemma columns_dropna_rows [simp]: "columns (dropna_rows df) = columns df"
  by (simp add: dropna_rows_def select_rows_def columns_def split_beta o_def)

lemma distinct_columns_dropna_cols:
  "distinct (columns df) \<Longrightarrow> distinct (columns (dropna_cols df))"
  by (simp add: dropna_cols_def columns_def distinct_map_filter)

lemma clean_dataframe_cols:
  assumes "distinct (columns df)"
  shows "clean_dataframe L df =
     Inr ((dropna_cols (dropna_rows df))
            \<lparr>cols := map (\<lambda>(n, c). (n, fst (process_series L n (trim_series L c))))
                      (cols (dropna_cols (dropna_rows df)))\<rparr>,
          snd (remove_empty_rows df) @ snd (remove_empty_columns (dropna_rows df))
          @ (if 0 < sum_list (map (\<lambda>(n, c). trim_changes L c) (cols (dropna_cols (dropna_rows df))))
             then [Trim_whitespace
                     (sum_list (map (\<lambda>(n, c). trim_changes L c) (cols (dropna_cols (dropna_rows df)))))]
             else [])
          @ concat (map (\<lambda>(n, c). snd (process_series L n (trim_series L c)))
                      (cols (dropna_cols (dropna_rows df)))))"
proof -
  let ?d2 = "dropna_cols (dropna_rows df)"
  let ?d3 = "?d2\<lparr>cols := map (\<lambda>(n, c). (n, trim_series L c)) (cols ?d2)\<rparr>"
  have d2: "distinct (columns ?d2)"
    using assms by (intro distinct_columns_dropna_cols) simp
  have t: "trim_loop L (object_columns ?d2) ?d2 0 =
      Inr (?d3, sum_list (map (\<lambda>(n, c). trim_changes L c) (cols ?d2)))"
    using trim_loop_cols [of ?d2 "[]" "cols ?d2", OF _ d2, of L 0]
    by (simp add: object_columns_def)
  have names: "columns ?d3 = map fst (cols ?d3)" by (simp add: columns_def)
  have d3: "distinct (columns ?d3)" using d2 by (simp add: columns_def split_beta o_def)
  have p: "process_loop L (columns ?d3) ?d3 acc =
      Inr (?d2\<lparr>cols := map (\<lambda>(n, c). (n, fst (process_series L n (trim_series L c)))) (cols ?d2)\<rparr>,
           acc @ concat (map (\<lambda>(n, c). snd (process_series L n (trim_series L c))) (cols ?d2)))"
    for acc
    unfolding names
    using process_loop_cols [of ?d3 "[]" "cols ?d3", OF _ d3, of L acc]
    by (simp add: case_prod_unfold o_def)
  show ?thesis
    by (simp add: clean_dataframe_def remove_empty_rows_def remove_empty_columns_def
        trim_whitespace_def t p Let_def)
qed

section \<open>Stripped and lower-case texts\<close>

subsection \<open>Stripping\<close>

lemma strip_with_fixed:
  "strip_with p s = s \<longleftrightarrow> s = [] \<or> (\<not> p (hd s) \<and> \<not> p (last s))"
proof (cases "s = []")
  case True
  then show ?thesis by (simp add: strip_with_def)
next
  case False
  show ?thesis
  proof (cases "p (hd s)")
    case True
    have "length (strip_with p s) \<le> length (dropWhile p s)"
      using length_dropWhile_le [of p "rev (dropWhile p s)"] by (simp add: strip_with_def)
    moreover have "length (dropWhile p s) < length s"
      using False True by (cases s) (auto simp: length_dropWhile_le less_Suc_eq_le)
    ultimately have "strip_with p s \<noteq> s" by auto
    then show ?thesis using True False by simp
  next
    case nh: False
    then have d: "dropWhile p s = s" using False by (simp add: dropWhile_eq_self_iff)
    have "strip_with p s = s \<longleftrightarrow> dropWhile p (rev s) = rev s"
      by (simp add: strip_with_def d rev_swap)
    also have "\<dots> \<longleftrightarrow> \<not> p (hd (rev s))"
      using False by (simp add: dropWhile_eq_self_iff)
    also have "\<dots> \<longleftrightarrow> \<not> p (last s)" using False by (simp add: hd_rev)
    finally show ?thesis using nh False by simp
  qed
qed

lemma strip_with_idem: "strip_with p (strip_with p s) = strip_with p s"
proof -
  let ?t = "dropWhile p s"
  let ?u = "strip_with p s"
  show ?thesis
  proof (cases "?u = []")
    case True
    show ?thesis unfolding True by (simp add: strip_with_def)
  next
    case False
    then have r: "dropWhile p (rev ?t) \<noteq> []" by (simp add: strip_with_def)
    have t: "?t \<noteq> []"
    proof
      assume e: "?t = []"
      show False using r unfolding e by simp
    qed
    have "\<not> p (hd (dropWhile p (rev ?t)))" using r by (rule hd_dropWhile)
    then have l: "\<not> p (last ?u)" using r by (simp add: strip_with_def last_rev)
    have "rev (rev ?t) = rev (takeWhile p (rev ?t) @ dropWhile p (rev ?t))"
      by (simp only: takeWhile_dropWhile_id)
    then have "?t = ?u @ rev (takeWhile p (rev ?t))"
      by (simp only: rev_rev_ident rev_append strip_with_def)
    then have "hd ?t = hd ?u" using False by (metis hd_append2)
    moreover have "\<not> p (hd ?t)" using t by (rule hd_dropWhile)
    ultimately have h: "\<not> p (hd ?u)" by simp
    show ?thesis using h l by (simp add: strip_with_fixed)
  qed
qed

lemma py_strip_stripped: "py_strip s = s \<longleftrightarrow> stripped s"
  by (simp add: py_strip_def stripped_def strip_with_fixed)

lemma stripped_py_strip: "stripped (py_strip s)"
  by (simp add: py_strip_stripped [symmetric]) (simp add: py_strip_def strip_with_idem)

subsection \<open>Lower case\<close>

lemma lower_char_not_upper: "\<not> is_upper c \<Longrightarrow> lower_char c = c"
  by (simp add: is_upper_def)

lemma lower_char_upper: "is_upper c \<Longrightarrow> is_lower (lower_char c)"
  by (auto simp: is_upper_def is_lower_def)

lemma lower_not_upper: "is_lower c \<Longrightarrow> \<not> is_upper c"
  by (auto simp: is_upper_def is_lower_def)

lemma letters_not_space: "is_lower c \<or> is_upper c \<Longrightarrow> \<not> is_space c"
  by (auto simp: char_class_defs)

lemma letters_not_digit: "is_lower c \<or> is_upper c \<Longrightarrow> \<not> is_digit c"
  by (auto simp: char_class_defs)

lemma letters_not_special: "is_lower c \<or> is_upper c \<Longrightarrow> c \<notin> set ''_,$%+-.''"
  by (auto simp: char_class_defs)

lemma lower_char_e_upper: "is_upper c \<Longrightarrow> lower_char c = CHR ''e'' \<longleftrightarrow> c = CHR ''E''"
  by (auto simp: is_upper_def)


declare lower_char.simps [simp del]

lemma lower_char_idem [simp]: "lower_char (lower_char c) = lower_char c"
proof (cases "is_upper c")
  case True
  then have "\<not> is_upper (lower_char c)" by (intro lower_not_upper lower_char_upper)
  then show ?thesis by (rule lower_char_not_upper)
next
  case False
  then show ?thesis by (simp add: lower_char_not_upper)
qed

lemma is_space_lower [simp]: "is_space (lower_char c) = is_space c"
proof (cases "is_upper c")
  case True
  then show ?thesis
    using letters_not_space [of c] letters_not_space [of "lower_char c"] lower_char_upper [of c]
    by simp
next
  case False
  then show ?thesis by (simp add: lower_char_not_upper)
qed

lemma is_digit_lower [simp]: "is_digit (lower_char c) = is_digit c"
proof (cases "is_upper c")
  case True
  then show ?thesis
    using letters_not_digit [of c] letters_not_digit [of "lower_char c"] lower_char_upper [of c]
    by simp
next
  case False
  then show ?thesis by (simp add: lower_char_not_upper)
qed

lemma lower_char_special:
  assumes "x \<in> set ''_,$%+-.''"
  shows "lower_char c = x \<longleftrightarrow> c = x"
proof (cases "is_upper c")
  case True
  then have "c \<noteq> x" "lower_char c \<noteq> x"
    using assms letters_not_special [of c] letters_not_special [of "lower_char c"]
      lower_char_upper [of c] by auto
  then show ?thesis by simp
next
  case False
  then show ?thesis by (simp add: lower_char_not_upper)
qed

lemma lower_char_e: "lower_char c = CHR ''e'' \<longleftrightarrow> c = CHR ''e'' \<or> c = CHR ''E''"
proof (cases "is_upper c")
  case True
  moreover have "c \<noteq> CHR ''e''" using True by (auto simp: is_upper_def)
  ultimately show ?thesis by (simp add: lower_char_e_upper)
next
  case False
  moreover have "c \<noteq> CHR ''E''" using False by (auto simp: is_upper_def)
  ultimately show ?thesis by (simp add: lower_char_not_upper)
qed

lemma lower_char_not_E [simp]: "lower_char c \<noteq> CHR ''E''"
proof (cases "is_upper c")
  case True
  then have "is_lower (lower_char c)" by (rule lower_char_upper)
  then show ?thesis by (auto simp: is_lower_def)
next
  case False
  then show ?thesis by (auto simp: lower_char_not_upper is_upper_def)
qed

lemma py_lower_idem [simp]: "py_lower (py_lower s) = py_lower s"
  by (simp add: py_lower_def)

lemma dropWhile_space_lower:
  "dropWhile is_space (map lower_char s) = map lower_char (dropWhile is_space s)"
  by (simp add: dropWhile_map o_def)

lemma py_strip_lower: "py_strip (py_lower s) = py_lower (py_strip s)"
  by (simp add: py_strip_def strip_with_def py_lower_def dropWhile_space_lower rev_map)

lemma remove_char_lower:
  "x \<in> set ''_,$%+-.'' \<Longrightarrow> remove_char x (py_lower s) = py_lower (remove_char x s)"
  by (simp add: remove_char_def py_lower_def filter_map o_def lower_char_special)

lemma strip_formatting_lower: "strip_formatting (py_lower s) = py_lower (strip_formatting s)"
  by (simp add: strip_formatting_def remove_char_lower)

lemma drop_sign_lower: "drop_sign (py_lower s) = py_lower (drop_sign s)"
  by (cases s) (simp_all add: drop_sign_def py_lower_def lower_char_special)

lemma all_digits_lower: "list_all is_digit (py_lower s) = list_all is_digit s"
  by (simp add: py_lower_def list_all_iff)

lemma exponent_ok_lower: "exponent_ok (py_lower s) = exponent_ok s"
proof (cases s)
  case Nil
  then show ?thesis by (simp add: py_lower_def)
next
  case (Cons c cs)
  have "exponent_ok (py_lower s) =
          (lower_char c = CHR ''e'' \<and> drop_sign (py_lower cs) \<noteq> []
           \<and> list_all is_digit (drop_sign (py_lower cs)))"
    by (simp add: Cons exponent_ok_def py_lower_def)
  also have "\<dots> = ((c = CHR ''e'' \<or> c = CHR ''E'') \<and> drop_sign cs \<noteq> []
           \<and> list_all is_digit (drop_sign cs))"
    by (simp add: drop_sign_lower all_digits_lower lower_char_e) (simp add: py_lower_def)
  finally show ?thesis by (simp add: Cons exponent_ok_def)
qed

lemma takeWhile_digit_lower:
  "takeWhile is_digit (py_lower s) = py_lower (takeWhile is_digit s)"
  by (simp add: py_lower_def takeWhile_map o_def)

lemma dropWhile_digit_lower:
  "dropWhile is_digit (py_lower s) = py_lower (dropWhile is_digit s)"
  by (simp add: py_lower_def dropWhile_map o_def)

lemma py_lower_empty [simp]: "py_lower [] = []"
  by (simp add: py_lower_def)

lemma py_lower_Nil [simp]: "py_lower s = [] \<longleftrightarrow> s = []"
  by (simp add: py_lower_def)

lemma py_lower_Cons: "py_lower (c # cs) = lower_char c # py_lower cs"
  by (simp add: py_lower_def)

lemma decimal_ok_lower: "decimal_ok (py_lower s) = decimal_ok s"
proof (cases "dropWhile is_digit s")
  case Nil
  show ?thesis
    by (simp add: decimal_ok_def Let_def takeWhile_digit_lower dropWhile_digit_lower Nil)
next
  case (Cons c cs)
  have dot: "lower_char c = CHR ''.'' \<longleftrightarrow> c = CHR ''.''" by (simp add: lower_char_special)
  have e: "exponent_ok (lower_char c # py_lower cs) = exponent_ok (c # cs)"
    using exponent_ok_lower [of "c # cs"] by (simp add: py_lower_Cons)
  show ?thesis
    by (simp add: decimal_ok_def Let_def takeWhile_digit_lower dropWhile_digit_lower Cons
        py_lower_Cons dot e exponent_ok_lower)
qed

lemma float_syntax_lower: "float_syntax (py_lower s) = float_syntax s"
  by (simp add: float_syntax_def Let_def drop_sign_lower decimal_ok_lower)

lemma underscores_ok_lower:
  "underscores_ok (lower_char prev) (py_lower s) = underscores_ok prev s"
  by (induction s arbitrary: prev) (simp_all add: py_lower_Cons lower_char_special py_lower_def)

lemma lower_char_NUL: "lower_char (CHR 0x00) = CHR 0x00"
  by (rule lower_char_not_upper) (simp add: is_upper_def)

lemma float_ok_lower: "float_ok (py_lower s) = float_ok s"
proof -
  have c: "(CHR ''_'' = lower_char x) = (x = CHR ''_'')" for x
    using lower_char_special [of "CHR ''_''" x] by auto
  have m: "CHR ''_'' \<in> set (py_lower t) \<longleftrightarrow> CHR ''_'' \<in> set t" for t
    by (auto simp: py_lower_def image_iff c)
  have u: "underscores_ok (CHR 0x00) (py_lower t) = underscores_ok (CHR 0x00) t" for t
    using underscores_ok_lower [of "CHR 0x00" t] by (simp add: lower_char_NUL)
  show ?thesis
    by (simp add: float_ok_def Let_def py_strip_lower m u remove_char_lower float_syntax_lower)
qed

lemma parses_as_number_lower:
  "parses_as_number L (Text (py_lower s)) = parses_as_number L (Text s)"
  by (simp add: parses_as_number_def py_strip_lower strip_formatting_lower float_ok_lower)

lemma stripped_lower: "stripped s \<Longrightarrow> stripped (py_lower s)"
  by (cases s) (auto simp: stripped_def py_lower_def last_map)

subsection \<open>Formatted dates\<close>

lemma digit_char_digit: "is_digit (digit_char n)"
proof -
  have "list_all is_digit ''0123456789''" by (simp add: is_digit_def)
  then show ?thesis by (simp add: list_all_length)
qed

lemma str_nat_digits: "list_all is_digit (str_nat n)"
proof (induction n rule: str_nat.induct)
  case (1 n)
  then show ?case
    using digit_char_digit [of n] by (subst str_nat.simps) (auto simp del: digit_char.simps)
qed

lemma str_nat_nonempty: "str_nat n \<noteq> []"
  by (subst str_nat.simps) simp

lemma zero_pad_digits: "list_all is_digit s \<Longrightarrow> list_all is_digit (zero_pad w s)"
proof -
  have "is_digit (CHR ''0'')" by (simp add: is_digit_def)
  then show "list_all is_digit s \<Longrightarrow> list_all is_digit (zero_pad w s)"
    by (auto simp: zero_pad_def list_all_iff)
qed

lemma zero_pad_nonempty: "s \<noteq> [] \<Longrightarrow> zero_pad w s \<noteq> []"
  by (simp add: zero_pad_def)

lemma strftime_shape:
  "\<exists>y r. strftime d = y @ CHR ''-'' # r \<and> y \<noteq> [] \<and> list_all is_digit y \<and> list_all (\<lambda>c. is_digit c \<or> c = CHR ''-'') r
         \<and> r \<noteq> [] \<and> is_digit (last r)"
proof -
  let ?y = "zero_pad 4 (str_nat (year d))"
  let ?m = "zero_pad 2 (str_nat (month d))"
  let ?d = "zero_pad 2 (str_nat (day d))"
  have y: "?y \<noteq> []" "list_all is_digit ?y"
    by (simp_all add: zero_pad_nonempty str_nat_nonempty zero_pad_digits str_nat_digits)
  have m: "list_all is_digit ?m" by (simp add: zero_pad_digits str_nat_digits)
  have d: "?d \<noteq> []" "list_all is_digit ?d"
    by (simp_all add: zero_pad_nonempty str_nat_nonempty zero_pad_digits str_nat_digits)
  have l: "is_digit (last ?d)" using d by (simp add: list_all_iff)
  have "strftime d = ?y @ CHR ''-'' # (?m @ CHR ''-'' # ?d)" by (simp add: strftime_def)
  moreover have "list_all (\<lambda>c. is_digit c \<or> c = CHR ''-'') (?m @ CHR ''-'' # ?d)"
    using m d by (auto simp: list_all_iff)
  moreover have "is_digit (last (?m @ CHR ''-'' # ?d))" using d l by simp
  ultimately show ?thesis using y by blast
qed

lemma digit_not_space: "is_digit c \<Longrightarrow> \<not> is_space c"
  by (auto simp: char_class_defs)

lemma digit_not_upper: "is_digit c \<Longrightarrow> \<not> is_upper c"
  by (auto simp: char_class_defs)

lemma stripped_strftime: "stripped (strftime d)"
proof -
  obtain y r where s: "strftime d = y @ CHR ''-'' # r" and y: "y \<noteq> []" "list_all is_digit y"
    and r: "r \<noteq> []" "is_digit (last r)"
    using strftime_shape by blast
  have "is_digit (hd (strftime d))" using y by (cases y) (simp_all add: s)
  moreover have "is_digit (last (strftime d))" using r by (simp add: s)
  ultimately show ?thesis by (simp add: stripped_def digit_not_space)
qed

lemma lower_strftime: "py_lower (strftime d) = strftime d"
proof -
  obtain y r where s: "strftime d = y @ CHR ''-'' # r" and y: "list_all is_digit y"
    and r: "list_all (\<lambda>c. is_digit c \<or> c = CHR ''-'') r"
    using strftime_shape by blast
  have "\<not> is_upper (CHR ''-'')" by (simp add: is_upper_def)
  then have "\<forall>c\<in>set (strftime d). \<not> is_upper c"
    using y r by (auto simp: s list_all_iff dest: digit_not_upper)
  then show ?thesis
    unfolding py_lower_def by (intro map_idI) (simp add: lower_char_not_upper)
qed

lemma strftime_not_number: "\<not> float_ok (strip_formatting (py_strip (strftime d)))"
proof -
  obtain y r where s: "strftime d = y @ CHR ''-'' # r" and y: "y \<noteq> []" "list_all is_digit y"
    and r: "list_all (\<lambda>c. is_digit c \<or> c = CHR ''-'') r"
    using strftime_shape by blast
  let ?s = "strftime d"
  have chars: "\<forall>c\<in>set ?s. is_digit c \<or> c = CHR ''-''"
    using y r by (auto simp: s list_all_iff)
  have st: "py_strip ?s = ?s" by (simp add: py_strip_stripped stripped_strftime)
  have nf: "c \<notin> set ?s" if "\<not> is_digit c" "c \<noteq> CHR ''-''" for c
    using chars that by auto
  have sf: "strip_formatting ?s = ?s"
    unfolding strip_formatting_def remove_char_def
    using nf [of "CHR '',''"] nf [of "CHR ''$''"] nf [of "CHR ''%''"]
    by (auto simp: is_digit_def filter_id_conv)
  have us: "CHR ''_'' \<notin> set ?s" using nf [of "CHR ''_''"] by (simp add: is_digit_def)
  obtain c y' where yc: "y = c # y'" and c: "is_digit c" using y by (cases y) auto
  have ds: "drop_sign ?s = ?s" using c by (auto simp: s yc drop_sign_def is_digit_def)
  have tw: "takeWhile is_digit ?s = y" "dropWhile is_digit ?s = CHR ''-'' # r"
    using y(2) by (simp_all add: s list_all_iff takeWhile_append2 dropWhile_append2 is_digit_def)
  have dec: "\<not> decimal_ok ?s"
    by (simp add: decimal_ok_def Let_def tw exponent_ok_def)
  have "10 \<le> length (py_lower ?s)" using length_strftime [of d] by (simp add: py_lower_def)
  then have words: "py_lower ?s \<notin> set [''inf'', ''infinity'', ''nan'']" by auto
  have "\<not> float_syntax ?s" using dec words by (simp add: float_syntax_def Let_def ds)
  then show ?thesis by (simp add: st sf float_ok_def Let_def us)
qed

section \<open>The columns of a cleaned frame\<close>

lemma text_cells_iff:
  "text_cells p xs \<longleftrightarrow> (\<forall>x\<in>set xs. x = Null \<or> (\<exists>s. x = Text s \<and> p s))"
proof -
  have "(case x of Null \<Rightarrow> True | Text s \<Rightarrow> p s | _ \<Rightarrow> False)
          \<longleftrightarrow> x = Null \<or> (\<exists>s. x = Text s \<and> p s)" for x
    by (cases x) auto
  then show ?thesis by (simp add: text_cells_def list_all_iff)
qed

lemma dtype_trim_series [simp]: "dtype (trim_series L c) = dtype c"
  by (simp add: trim_series_def)

lemma length_trim_series [simp]: "length (vals (trim_series L c)) = length (vals c)"
  by (simp add: trim_series_def)

lemma text_cells_trim_series:
  "dtype c = Object \<Longrightarrow> text_cells stripped (vals (trim_series L c))"
  by (auto simp: text_cells_iff trim_series_def notna_def stripped_py_strip)

lemma trim_series_settled:
  assumes "dtype c \<noteq> Object \<or> text_cells stripped (vals c)"
  shows "trim_series L c = c" and "trim_changes L c = 0"
proof -
  have "(if notna x then Text (py_strip (py_str L x)) else x) = x
        \<and> \<not> (notna x \<and> py_str L x \<noteq> py_strip (py_str L x))"
    if "dtype c = Object" and "x \<in> set (vals c)" for x
  proof -
    from that assms have "x = Null \<or> (\<exists>s. x = Text s \<and> stripped s)"
      by (auto simp: text_cells_iff)
    moreover have "py_strip s = s" if "stripped s" for s
      using that by (simp add: py_strip_stripped)
    ultimately show ?thesis by (auto simp: notna_def)
  qed
  then have "dtype c = Object \<Longrightarrow>
      map (\<lambda>x. if notna x then Text (py_strip (py_str L x)) else x) (vals c) = vals c
      \<and> filter (\<lambda>x. notna x \<and> py_str L x \<noteq> py_strip (py_str L x)) (vals c) = []"
    by (auto simp: filter_empty_conv intro!: map_idI)
  then show "trim_series L c = c" and "trim_changes L c = 0"
    by (auto simp: trim_series_def trim_changes_def)
qed

lemma should_be_numeric_sample:
  "sample_of c' = sample_of c \<Longrightarrow> should_be_numeric L c' = should_be_numeric L c"
  by (simp add: should_be_numeric_iff)

lemma is_date_column_sample:
  "sample_of c' = sample_of c \<Longrightarrow> is_date_column L c' = is_date_column L c"
  by (simp add: is_date_column_iff)

lemma not_numeric_no_parse:
  assumes "\<forall>x\<in>set (vals c). notna x \<longrightarrow> \<not> parses_as_number L x"
  shows "\<not> should_be_numeric L c"
proof -
  have "set (sample_of c) \<subseteq> {x \<in> set (vals c). notna x}"
    by (auto simp: sample_of_def dropna_def dest: in_set_takeD)
  then have "filter (parses_as_number L) (sample_of c) = []"
    using assms by (auto simp: filter_empty_conv)
  then show ?thesis by (simp add: should_be_numeric_iff)
qed

lemma date_series_settled:
  assumes "dtype c = Object" and "text_cells stripped (vals c)" and "is_date_column L c"
  shows "settled L (fst (date_series L col c))"
proof (cases "to_datetime L (vals c)")
  case None
  then show ?thesis using assms by (simp add: date_series_def settled_def)
next
  case (Some parsed)
  show ?thesis
  proof (cases "filter (\<lambda>p. p \<noteq> None) parsed = []")
    case True
    then show ?thesis
      by (simp add: date_series_def Some settled_def is_datetime64_any_dtype_def)
  next
    case False
    let ?c = "\<lparr>dtype = Object,
               vals = map (\<lambda>p. case p of None \<Rightarrow> Null | Some d \<Rightarrow> Text (strftime d)) parsed\<rparr>"
    have cells: "\<forall>x\<in>set (vals ?c). x = Null \<or> (\<exists>d. x = Text (strftime d))"
      by (auto split: option.splits)
    have 1: "text_cells stripped (vals ?c)"
      unfolding text_cells_iff using cells stripped_strftime by blast
    have 2: "text_cells (\<lambda>s. py_lower s = s) (vals ?c)"
      unfolding text_cells_iff using cells lower_strftime by blast
    have "\<forall>x\<in>set (vals ?c). notna x \<longrightarrow> \<not> parses_as_number L x"
    proof
      fix x assume "x \<in> set (vals ?c)"
      with cells have "x = Null \<or> (\<exists>d. x = Text (strftime d))" by blast
      then show "notna x \<longrightarrow> \<not> parses_as_number L x"
        by (auto simp: notna_def parses_as_number_def strftime_not_number)
    qed
    then have 3: "\<not> should_be_numeric L ?c" by (rule not_numeric_no_parse)
    have "fst (date_series L col c) = ?c" using False by (simp add: date_series_def Some)
    then show ?thesis using 1 2 3 by (simp add: settled_def)
  qed
qed

lemma text_series_settled:
  assumes o: "dtype c = Object" and s: "text_cells stripped (vals c)"
    and n: "\<not> should_be_numeric L c"
  shows "settled L (fst (text_series L col c))"
proof (cases "filter (\<lambda>x. notna x \<and> py_str L x \<noteq> py_lower (py_str L x)) (vals c) = []")
  case True
  have "text_cells (\<lambda>s. py_lower s = s) (vals c)"
    unfolding text_cells_iff
  proof
    fix x assume x: "x \<in> set (vals c)"
    then have "x = Null \<or> (\<exists>s. x = Text s)" using s by (auto simp: text_cells_iff)
    moreover have "\<not> (notna x \<and> py_str L x \<noteq> py_lower (py_str L x))"
      using True x by (simp add: filter_empty_conv)
    ultimately show "x = Null \<or> (\<exists>s. x = Text s \<and> py_lower s = s)"
      by (auto simp: notna_def)
  qed
  then show ?thesis using True o s n by (simp add: text_series_def settled_def)
next
  case False
  let ?low = "\<lambda>x. if notna x then Text (py_lower (py_str L x)) else x"
  let ?c = "c\<lparr>vals := map ?low (vals c)\<rparr>"
  have cell: "x = Null \<or> (\<exists>s. x = Text s \<and> stripped s)" if "x \<in> set (vals c)" for x
    using s that by (auto simp: text_cells_iff)
  have low: "?low x = Null \<or> (\<exists>s. ?low x = Text (py_lower s) \<and> stripped s)"
    if "x \<in> set (vals c)" for x
    using cell [OF that] by (auto simp: notna_def)
  have 1: "text_cells stripped (vals ?c)"
    unfolding text_cells_iff
  proof
    fix y assume "y \<in> set (vals ?c)"
    then obtain x where "x \<in> set (vals c)" "y = ?low x" by auto
    with low [of x] show "y = Null \<or> (\<exists>s. y = Text s \<and> stripped s)"
      by (metis stripped_lower)
  qed
  have 2: "text_cells (\<lambda>s. py_lower s = s) (vals ?c)"
    unfolding text_cells_iff
  proof
    fix y assume "y \<in> set (vals ?c)"
    then obtain x where "x \<in> set (vals c)" "y = ?low x" by auto
    with low [of x] show "y = Null \<or> (\<exists>s. y = Text s \<and> py_lower s = s)"
      by (metis py_lower_idem)
  qed
  have nn: "notna (?low x) = notna x" for x by (simp add: notna_def)
  have sm: "sample_of ?c = map ?low (sample_of c)"
    by (simp add: sample_of_def dropna_def filter_map o_def nn take_map)
  have par: "parses_as_number L (?low x) = parses_as_number L x" if "x \<in> set (vals c)" for x
    using cell [OF that] by (auto simp: notna_def parses_as_number_lower)
  have sub: "set (sample_of c) \<subseteq> set (vals c)"
    by (auto simp: sample_of_def dropna_def dest: in_set_takeD)
  have "filter (parses_as_number L) (map ?low (sample_of c))
          = map ?low (filter (parses_as_number L) (sample_of c))"
    unfolding filter_map o_def
    by (rule arg_cong [where f = "map ?low"], rule filter_cong [OF refl]) (use par sub in blast)
  then have "length (filter (parses_as_number L) (sample_of ?c))
          = length (filter (parses_as_number L) (sample_of c))"
    by (simp add: sm)
  then have 3: "\<not> should_be_numeric L ?c"
    using n by (simp add: should_be_numeric_iff sm)
  have "fst (text_series L col c) = ?c" using False by (simp add: text_series_def)
  then show ?thesis using o 1 2 3 by (simp add: settled_def)
qed

lemma dtype_cases: "is_numeric_dtype c \<or> is_datetime64_any_dtype c \<or> dtype c = Object"
  by (cases "dtype c") (simp_all add: is_numeric_dtype_def is_datetime64_any_dtype_def)

lemma process_series_settled:
  assumes "library_ok L"
  shows "settled L (fst (process_series L col (trim_series L c)))"
proof -
  let ?c = "trim_series L c"
  consider (isnum) "is_numeric_dtype ?c"
    | (isdt) "\<not> is_numeric_dtype ?c" "is_datetime64_any_dtype ?c"
    | (isobj) "\<not> is_numeric_dtype ?c" "\<not> is_datetime64_any_dtype ?c" "dtype ?c = Object"
    using dtype_cases [of ?c] by blast
  then show ?thesis
  proof cases
    case isnum
    then have "is_numeric_dtype (fst (infinity_series col ?c))"
      by (simp add: infinity_series_def is_numeric_dtype_def)
    then show ?thesis using isnum by (simp add: process_series_def settled_def)
  next
    case isdt
    then show ?thesis by (simp add: process_series_def settled_def)
  next
    case isobj
    then have o: "dtype c = Object" by simp
    note s = text_cells_trim_series [OF o, of L]
    show ?thesis
    proof (cases "is_date_column L ?c")
      case True
      then show ?thesis
        using isobj date_series_settled [OF isobj(3) s True]
        by (simp add: process_series_def)
    next
      case nd: False
      show ?thesis
      proof (cases "should_be_numeric L ?c")
        case True
        then show ?thesis
          using isobj nd assms
          by (simp add: process_series_def numeric_series_def Let_def settled_def library_ok_def)
      next
        case False
        then show ?thesis
          using isobj nd text_series_settled [OF isobj(3) s False]
          by (simp add: process_series_def)
      qed
    qed
  qed
qed

lemma length_process_series:
  assumes "library_ok L"
  shows "length (vals (fst (process_series L col c))) = length (vals c)"
  using assms
  by (auto simp: process_series_def infinity_series_def date_series_def numeric_series_def
      text_series_def Let_def library_ok_def split: option.splits)

section \<open>Dropping empty rows and columns\<close>

lemma select_thin:
  assumes "length keep = length xs"
    and "\<forall>i<length xs. \<not> keep ! i \<longrightarrow> xs ! i = Null"
  shows "dropna (select keep xs) = dropna xs"
  using assms
proof (induction keep xs rule: list_induct2)
  case Nil
  then show ?case by (simp add: select_def)
next
  case (Cons k keep x xs)
  have "\<forall>i<length xs. \<not> keep ! i \<longrightarrow> xs ! i = Null"
    using Cons.prems by (auto simp: nth_Cons split: nat.splits dest: spec [of _ "Suc i" for i])
  then have ih: "dropna (select keep xs) = dropna xs" by (rule Cons.IH)
  have x: "\<not> k \<longrightarrow> x = Null" using Cons.prems by auto
  show ?case using ih x by (auto simp: select_def dropna_def notna_def)
qed

lemma set_select: "set (select keep xs) \<subseteq> set xs"
  by (auto simp: select_def dest: set_zip_rightD)

lemma length_select:
  "length keep = length xs \<Longrightarrow> length (select keep xs) = length (filter (\<lambda>b. b) keep)"
  by (induction keep xs rule: list_induct2) (auto simp: select_def)

lemma text_cells_subset: "set ys \<subseteq> set xs \<Longrightarrow> text_cells p xs \<Longrightarrow> text_cells p ys"
  by (auto simp: text_cells_def list_all_iff)

lemma settled_thin:
  assumes "settled L c" and "dropna v = dropna (vals c)" and "set v \<subseteq> set (vals c)"
  shows "settled L (c\<lparr>vals := v\<rparr>)"
proof -
  have s: "sample_of (c\<lparr>vals := v\<rparr>) = sample_of c" using assms(2) by (simp add: sample_of_def)
  have t: "text_cells p (vals c) \<Longrightarrow> text_cells p (vals (c\<lparr>vals := v\<rparr>))" for p
    using assms(3) by (simp add: text_cells_subset)
  show ?thesis
    using assms(1) t should_be_numeric_sample [OF s, of L] is_date_column_sample [OF s, of L]
    by (auto simp: settled_def is_numeric_dtype_def is_datetime64_any_dtype_def)
qed

lemma row_cell_null:
  assumes "(n, c) \<in> set (cols df)" and "\<not> list_ex notna (row_at df i)"
  shows "vals c ! i = Null"
proof -
  have "vals c ! i \<in> set (row_at df i)" using assms(1) by (force simp: row_at_def)
  then show ?thesis using assms(2) by (auto simp: list_ex_iff notna_def)
qed

lemma dropna_rows_column:
  assumes wf: "wf_frame df" and m: "(n, c') \<in> set (cols (dropna_rows df))"
  shows "\<exists>c. (n, c) \<in> set (cols df) \<and> dtype c' = dtype c
            \<and> dropna (vals c') = dropna (vals c) \<and> set (vals c') \<subseteq> set (vals c)
            \<and> c' = c\<lparr>vals := vals c'\<rparr>
            \<and> length (vals c') = len (dropna_rows df)"
proof -
  let ?keep = "map (\<lambda>r. list_ex notna r) (rows df)"
  from m obtain c where c: "(n, c) \<in> set (cols df)" and c': "c' = c\<lparr>vals := select ?keep (vals c)\<rparr>"
    by (auto simp: dropna_rows_def select_rows_def)
  have len: "length (vals c) = len df" using wf c by (auto simp: wf_frame_def list_all_iff)
  have lk: "length ?keep = length (vals c)" by (simp add: len rows_def)
  have "\<forall>i<length (vals c). \<not> ?keep ! i \<longrightarrow> vals c ! i = Null"
    using row_cell_null [OF c] by (simp add: len rows_def)
  then have "dropna (select ?keep (vals c)) = dropna (vals c)"
    using lk by (intro select_thin)
  moreover have "length (select ?keep (vals c)) = len (dropna_rows df)"
    using length_select [OF lk] length_select [of ?keep "index df"]
    by (simp add: dropna_rows_def select_rows_def len_def rows_def)
  ultimately show ?thesis using c c' set_select [of ?keep "vals c"] by auto
qed

lemma wf_dropna_rows: "wf_frame df \<Longrightarrow> wf_frame (dropna_rows df)"
  using dropna_rows_column [of df]
  by (auto simp: wf_frame_def list_all_iff)

lemma cols_dropna_cols: "set (cols (dropna_cols df)) \<subseteq> set (cols df)"
  by (auto simp: dropna_cols_def)

lemma len_dropna_cols [simp]: "len (dropna_cols df) = len df"
  by (simp add: dropna_cols_def len_def)

lemma wf_dropna_cols: "wf_frame df \<Longrightarrow> wf_frame (dropna_cols df)"
  using cols_dropna_cols [of df]
  by (auto simp: wf_frame_def list_all_iff distinct_columns_dropna_cols)

section \<open>Cleaning a cleaned frame\<close>

lemma clean_dataframe_output:
  assumes lib: "library_ok L" and wf: "wf_frame df"
    and cl: "clean_dataframe L df = Inr (df1, log1)"
  shows "wf_frame df1" and "\<forall>(n, c)\<in>set (cols df1). settled L c"
proof -
  let ?d2 = "dropna_cols (dropna_rows df)"
  let ?P = "\<lambda>(n, c). (n, fst (process_series L n (trim_series L c)))"
  have d: "distinct (columns df)" using wf by (simp add: wf_frame_def)
  have df1: "df1 = ?d2\<lparr>cols := map ?P (cols ?d2)\<rparr>"
    using cl clean_dataframe_cols [OF d, of L] by simp
  have wf2: "wf_frame ?d2" using wf by (intro wf_dropna_cols wf_dropna_rows)
  have names: "columns df1 = columns ?d2"
    by (simp add: df1 columns_def case_prod_unfold o_def)
  have len: "len df1 = len ?d2" by (simp add: df1 len_def)
  show "wf_frame df1"
    using wf2 unfolding wf_frame_def names len
    by (auto simp: df1 list_all_iff length_process_series [OF lib])
  show "\<forall>(n, c)\<in>set (cols df1). settled L c"
    by (auto simp: df1 process_series_settled [OF lib])
qed

lemma text_series_lower:
  assumes "text_cells (\<lambda>s. py_lower s = s) (vals c)"
  shows "snd (text_series L col c) = []"
proof -
  have "\<not> (notna x \<and> py_str L x \<noteq> py_lower (py_str L x))" if "x \<in> set (vals c)" for x
    using assms that by (auto simp: text_cells_iff notna_def)
  then have "filter (\<lambda>x. notna x \<and> py_str L x \<noteq> py_lower (py_str L x)) (vals c) = []"
    by (simp add: filter_empty_conv)
  then show ?thesis by (simp add: text_series_def)
qed

lemma process_series_rerun:
  assumes "settled L c"
  shows "list_all rerun_entry (snd (process_series L col c))"
proof -
  consider (isnum) "is_numeric_dtype c"
    | (isdt) "\<not> is_numeric_dtype c" "is_datetime64_any_dtype c"
    | (isdate) "\<not> is_numeric_dtype c" "\<not> is_datetime64_any_dtype c" "is_date_column L c"
    | (istext) "\<not> is_numeric_dtype c" "\<not> is_datetime64_any_dtype c" "\<not> is_date_column L c"
        "\<not> should_be_numeric L c" "text_cells (\<lambda>s. py_lower s = s) (vals c)"
    using assms by (auto simp: settled_def)
  then show ?thesis
  proof cases
    case isnum
    then show ?thesis by (simp add: process_series_def infinity_series_def)
  next
    case isdt
    then show ?thesis by (simp add: process_series_def)
  next
    case isdate
    then show ?thesis
      by (simp add: process_series_def date_series_def split: option.splits)
  next
    case istext
    then show ?thesis by (simp add: process_series_def text_series_lower)
  qed
qed

lemma settled_trim:
  assumes "settled L c"
  shows "trim_series L c = c" and "trim_changes L c = 0"
proof -
  have "dtype c \<noteq> Object \<or> text_cells stripped (vals c)"
    using assms by (auto simp: settled_def is_numeric_dtype_def is_datetime64_any_dtype_def)
  then show "trim_series L c = c" and "trim_changes L c = 0"
    by (rule trim_series_settled)+
qed

lemma settled_after_dropna:
  assumes wf: "wf_frame df" and st: "\<forall>(n, c)\<in>set (cols df). settled L c"
    and m: "(n, c') \<in> set (cols (dropna_cols (dropna_rows df)))"
  shows "settled L c'"
proof -
  from m have "(n, c') \<in> set (cols (dropna_rows df))" using cols_dropna_cols by blast
  from dropna_rows_column [OF wf this] obtain c where c: "(n, c) \<in> set (cols df)"
    and d: "dropna (vals c') = dropna (vals c)" and s: "set (vals c') \<subseteq> set (vals c)"
    and e: "c' = c\<lparr>vals := vals c'\<rparr>"
    by blast
  have "settled L c" using st c by auto
  from settled_thin [OF this d s] e show ?thesis by simp
qed

lemma second_run_log:
  assumes wf: "wf_frame df" and st: "\<forall>(n, c)\<in>set (cols df). settled L c"
    and cl: "clean_dataframe L df = Inr (df', l)"
  shows "list_all rerun_entry l"
proof -
  let ?d2 = "dropna_cols (dropna_rows df)"
  have d: "distinct (columns df)" using wf by (simp add: wf_frame_def)
  have s2: "settled L c" if "(n, c) \<in> set (cols ?d2)" for n c
    using settled_after_dropna [OF wf st that] .
  have tr: "map (\<lambda>(n, c). trim_changes L c) (cols ?d2) = map (\<lambda>x. 0) (cols ?d2)"
    by (rule map_cong [OF refl]) (auto simp: settled_trim s2)
  have l3: "sum_list (map (\<lambda>(n, c). trim_changes L c) (cols ?d2)) = 0"
    unfolding tr by simp
  have pr: "list_all rerun_entry (snd (process_series L n (trim_series L c)))"
    if "(n, c) \<in> set (cols ?d2)" for n c
    using s2 [OF that] by (simp add: settled_trim process_series_rerun)
  have l4: "list_all rerun_entry
      (concat (map (\<lambda>(n, c). snd (process_series L n (trim_series L c))) (cols ?d2)))"
    using pr by (auto simp: list_all_iff)
  have l1: "list_all rerun_entry (snd (remove_empty_rows df))"
    by (simp add: remove_empty_rows_def Let_def)
  have l2: "list_all rerun_entry (snd (remove_empty_columns (dropna_rows df)))"
    by (simp add: remove_empty_columns_def Let_def)
  have "l = snd (remove_empty_rows df) @ snd (remove_empty_columns (dropna_rows df))
          @ concat (map (\<lambda>(n, c). snd (process_series L n (trim_series L c))) (cols ?d2))"
    using cl clean_dataframe_cols [OF d, of L] by (simp add: l3)
  then show ?thesis using l1 l2 l4 by simp
qed

text \<open>
  C2 (as amended). A second run of \<^verbatim>\<open>clean_dataframe\<close> on the frame the first run returned
  is not silent in general, but it logs no \<^verbatim>\<open>trim_whitespace\<close>, \<^verbatim>\<open>normalize_text\<close>,
  \<^verbatim>\<open>convert_to_numeric\<close> or \<^verbatim>\<open>coerce_to_numeric\<close> entry: for a well-formed frame, and a
  library whose numeric parser returns numeric columns, both runs return and every entry
  of the second log is a \<^verbatim>\<open>remove_empty_rows\<close>, \<^verbatim>\<open>remove_empty_columns\<close>,
  \<^verbatim>\<open>remove_infinity\<close> or \<^verbatim>\<open>convert_dates\<close> entry.
\<close>

theorem clean_twice_log:
  "library_ok L \<and> wf_frame df \<longrightarrow>
     (\<exists>df1 log1 df2 log2.
        clean_dataframe L df = Inr (df1, log1) \<and> clean_dataframe L df1 = Inr (df2, log2)
        \<and> list_all rerun_entry log2)"
proof (intro impI; elim conjE)
  assume lib: "library_ok L" and wf: "wf_frame df"
  obtain df1 log1 where 1: "clean_dataframe L df = Inr (df1, log1)"
    using clean_dataframe_total by blast
  obtain df2 log2 where 2: "clean_dataframe L df1 = Inr (df2, log2)"
    using clean_dataframe_total by blast
  note out = clean_dataframe_output [OF lib wf 1]
  have "list_all rerun_entry log2" using out 2 by (rule second_run_log)
  then show "\<exists>df1 log1 df2 log2.
        clean_dataframe L df = Inr (df1, log1) \<and> clean_dataframe L df1 = Inr (df2, log2)
        \<and> list_all rerun_entry log2"
    using 1 2 by blast
qed

lemma library_ok_simple_pandas: "library_ok simple_pandas"
  by (auto simp: library_ok_def simple_pandas_def read_integers_def read_dates_def Let_def
      is_numeric_dtype_def)

lemma mixed_frame_first_run:
  "clean_dataframe simple_pandas
     \<lparr>index = [0, 1, 2],
      cols = [(''when'', \<lparr>dtype = Object, vals = [Text ''2024-01-05'', Text '' 2024-02-10'', Null]\<rparr>),
              (''city'', \<lparr>dtype = Object, vals = [Text '' Oslo '', Text ''Rome'', Null]\<rparr>),
              (''qty'', \<lparr>dtype = Object, vals = [Text ''12'', Text ''7'', Null]\<rparr>),
              (''x'', \<lparr>dtype = Float64, vals = [Float PInf, Float (Fin 1), Null]\<rparr>)]\<rparr>
   = Inr (\<lparr>index = [0, 1],
           cols = [(''when'', \<lparr>dtype = Object, vals = [Text ''2024-01-05'', Text ''2024-02-10'']\<rparr>),
                   (''city'', \<lparr>dtype = Object, vals = [Text ''oslo'', Text ''rome'']\<rparr>),
                   (''qty'', \<lparr>dtype = Int64, vals = [Integer 12, Integer 7]\<rparr>),
                   (''x'', \<lparr>dtype = Float64, vals = [Null, Float (Fin 1)]\<rparr>)]\<rparr>,
          [Remove_empty_rows 1, Trim_whitespace 2, Convert_dates ''when'' 2 0,
           Normalize_text ''city'' 2, Convert_to_numeric ''qty'', Remove_infinity ''x'' 1])"
  by code_simp

lemma mixed_frame_second_run:
  "clean_dataframe simple_pandas
     \<lparr>index = [0, 1],
      cols = [(''when'', \<lparr>dtype = Object, vals = [Text ''2024-01-05'', Text ''2024-02-10'']\<rparr>),
              (''city'', \<lparr>dtype = Object, vals = [Text ''oslo'', Text ''rome'']\<rparr>),
              (''qty'', \<lparr>dtype = Int64, vals = [Integer 12, Integer 7]\<rparr>),
              (''x'', \<lparr>dtype = Float64, vals = [Null, Float (Fin 1)]\<rparr>)]\<rparr>
   = Inr (\<lparr>index = [0, 1],
           cols = [(''when'', \<lparr>dtype = Object, vals = [Text ''2024-01-05'', Text ''2024-02-10'']\<rparr>),
                   (''city'', \<lparr>dtype = Object, vals = [Text ''oslo'', Text ''rome'']\<rparr>),
                   (''qty'', \<lparr>dtype = Int64, vals = [Integer 12, Integer 7]\<rparr>),
                   (''x'', \<lparr>dtype = Float64, vals = [Null, Float (Fin 1)]\<rparr>)]\<rparr>,
          [Convert_dates ''when'' 2 0])"
  by code_simp

theorem clean_twice_log_witness:
  "\<exists>df1 log1 df2 log2.
     clean_dataframe simple_pandas
       \<lparr>index = [0, 1, 2],
        cols = [(''when'', \<lparr>dtype = Object, vals = [Text ''2024-01-05'', Text '' 2024-02-10'', Null]\<rparr>),
                (''city'', \<lparr>dtype = Object, vals = [Text '' Oslo '', Text ''Rome'', Null]\<rparr>),
                (''qty'', \<lparr>dtype = Object, vals = [Text ''12'', Text ''7'', Null]\<rparr>),
                (''x'', \<lparr>dtype = Float64, vals = [Float PInf, Float (Fin 1), Null]\<rparr>)]\<rparr>
       = Inr (df1, log1)
     \<and> log1 = [Remove_empty_rows 1, Trim_whitespace 2, Convert_dates ''when'' 2 0,
           Normalize_text ''city'' 2, Convert_to_numeric ''qty'', Remove_infinity ''x'' 1]
     \<and> clean_dataframe simple_pandas df1 = Inr (df2, log2)
     \<and> log2 = [Convert_dates ''when'' 2 0]
     \<and> list_all rerun_entry log2"
proof -
  let ?f = "\<lparr>index = [0, 1, 2],
        cols = [(''when'', \<lparr>dtype = Object, vals = [Text ''2024-01-05'', Text '' 2024-02-10'', Null]\<rparr>),
                (''city'', \<lparr>dtype = Object, vals = [Text '' Oslo '', Text ''Rome'', Null]\<rparr>),
                (''qty'', \<lparr>dtype = Object, vals = [Text ''12'', Text ''7'', Null]\<rparr>),
                (''x'', \<lparr>dtype = Float64, vals = [Float PInf, Float (Fin 1), Null]\<rparr>)]\<rparr>"
  have wf: "wf_frame ?f" by (simp add: wf_frame_def columns_def len_def)
  from clean_twice_log [of simple_pandas ?f] library_ok_simple_pandas wf
  obtain df1 log1 df2 log2 where
    r: "clean_dataframe simple_pandas ?f = Inr (df1, log1)"
       "clean_dataframe simple_pandas df1 = Inr (df2, log2)" "list_all rerun_entry log2"
    by blast
  from r(1) have 1: "df1 = \<lparr>index = [0, 1],
           cols = [(''when'', \<lparr>dtype = Object, vals = [Text ''2024-01-05'', Text ''2024-02-10'']\<rparr>),
                   (''city'', \<lparr>dtype = Object, vals = [Text ''oslo'', Text ''rome'']\<rparr>),
                   (''qty'', \<lparr>dtype = Int64, vals = [Integer 12, Integer 7]\<rparr>),
                   (''x'', \<lparr>dtype = Float64, vals = [Null, Float (Fin 1)]\<rparr>)]\<rparr>"
    and l1: "log1 = [Remove_empty_rows 1, Trim_whitespace 2, Convert_dates ''when'' 2 0,
           Normalize_text ''city'' 2, Convert_to_numeric ''qty'', Remove_infinity ''x'' 1]"
    unfolding mixed_frame_first_run by simp_all
  from r(2) have l2: "log2 = [Convert_dates ''when'' 2 0]"
    unfolding 1 mixed_frame_second_run by simp
  show ?thesis using r l1 l2 by blast
qed

text \<open>
  C2 as stated does not hold: the frame with the single text cell \<^verbatim>\<open>2024-01-05\<close> is
  returned unchanged by the cleaner together with a \<^verbatim>\<open>convert_dates\<close> entry, so the
  second run on the cleaned frame logs that entry again.
\<close>

theorem clean_twice_counterexample:
  "clean_dataframe simple_pandas
     \<lparr>index = [0], cols = [(''d'', \<lparr>dtype = Object, vals = [Text ''2024-01-05'']\<rparr>)]\<rparr>
   = Inr (\<lparr>index = [0], cols = [(''d'', \<lparr>dtype = Object, vals = [Text ''2024-01-05'']\<rparr>)]\<rparr>,
          [Convert_dates ''d'' 1 0])
   \<and> (case clean_dataframe simple_pandas
             \<lparr>index = [0], cols = [(''d'', \<lparr>dtype = Object, vals = [Text ''2024-01-05'']\<rparr>)]\<rparr> of
        Inl e \<Rightarrow> False
      | Inr (df1, log1) \<Rightarrow>
          (case clean_dataframe simple_pandas df1 of
             Inl e \<Rightarrow> False
           | Inr (df2, log2) \<Rightarrow> log2 = [Convert_dates ''d'' 1 0] \<and> log2 \<noteq> []))"
  by code_simp

section \<open>Date parse failure\<close>








end
